theory Spec2Isabelle
  imports Complex_Main "HOL-Library.AList"
begin

unbundle bit_operations_syntax

section \<open>Python values\<close>

text \<open>
  The configuration reader builds dictionaries whose values are strings, booleans,
  integers, floats, \<open>None\<close>, nested dictionaries and lists. A dictionary is an
  association list: Python dictionaries keep insertion order, and the keys in use are
  strings. A float is either a finite number or one of the three special values.
\<close>

datatype pyfloat = Finite real | PosInf | NegInf | NaN

datatype pyval =
    PNone
  | PBool bool
  | PInt int
  | PFloat pyfloat
  | PStr string
  | PDict "(string \<times> pyval) list"
  | PList "pyval list"

text \<open>
  Exceptions are values: a function that can raise returns \<open>pyerror + 'a\<close>, with
  \<open>Inl\<close> for the exception. \<open>OSError\<close> and \<open>ZMQError\<close> carry their error number.
\<close>

datatype pyerror = ValueError | KeyError | TypeError | IndexError | NotImplementedError
  | NoSectionError | NoOptionError | OSError int | ZMQError int

type_synonym pydict = "(string \<times> pyval) list"

text \<open>\<open>os.environ\<close>: variable names and their values.\<close>

type_synonym environ = "(string \<times> string) list"

subsection \<open>\<open>expand_vars\<close> (config.py)\<close>

text \<open>
  \<^verbatim>\<open>
  def expand_vars(value, env):
      if isinstance(value, six.string_types):
          return replace_gnu_args(value, env=env)
      elif isinstance(value, dict):
          return {key: expand_vars(v, env) for key, v in six.iteritems(value)}
      elif isinstance(value, list):
          return [expand_vars(v, env) for v in value]
      else:
          return value
  \<close>
  \<open>replace_gnu_args\<close> lives in \<open>circus.util\<close>, which is not among the sources at
  hand; it is the first argument \<open>rga\<close>. The environment is a dictionary.
\<close>

fun expand_vars :: "(string \<Rightarrow> pydict \<Rightarrow> string) \<Rightarrow> pyval \<Rightarrow> pydict \<Rightarrow> pyval" where
  "expand_vars rga (PStr s) env = PStr (rga s env)"
| "expand_vars rga (PDict kvs) env = PDict (map (\<lambda>(key, v). (key, expand_vars rga v env)) kvs)"
| "expand_vars rga (PList vs) env = PList (map (\<lambda>v. expand_vars rga v env) vs)"
| "expand_vars rga PNone env = PNone"
| "expand_vars rga (PBool b) env = PBool b"
| "expand_vars rga (PInt i) env = PInt i"
| "expand_vars rga (PFloat f) env = PFloat f"

fun is_str :: "pyval \<Rightarrow> bool" where
  "is_str (PStr _) = True"
| "is_str _ = False"

fun is_dict :: "pyval \<Rightarrow> bool" where
  "is_dict (PDict _) = True"
| "is_dict _ = False"

fun is_list :: "pyval \<Rightarrow> bool" where
  "is_list (PList _) = True"
| "is_list _ = False"

section \<open>share.py: \<open>os_open\<close> on Windows\<close>




definition FILE_SHARE_READ :: int where "FILE_SHARE_READ = 0x00000001"
definition FILE_SHARE_WRITE :: int where "FILE_SHARE_WRITE = 0x00000002"











section \<open>consumer.py: \<open>CircusConsumer\<close>\<close>

text \<open>
  The zmq objects the consumer touches, as far as the consumer can observe them: a
  context is live or terminated and owns sockets; a socket is open or closed, connected
  to endpoints and subscribed to topics. \<open>errno.EINTR\<close> is 4.
\<close>

definition EINTR :: int where "EINTR = 4"

record zmq_socket =
  closed :: bool
  connected :: "string list"
  subscribed :: "string list"

record zmq_context =
  terminated :: bool
  ctx_sockets :: "zmq_socket list"

definition new_context :: zmq_context where
  "new_context = \<lparr> terminated = False, ctx_sockets = [] \<rparr>"

text \<open>
  \<open>Context.destroy\<close> closes every socket of the context and terminates it. What the
  call does is decided outside the program: it completes, or it raises \<open>ZMQError\<close> with
  an error number, leaving the context in some state.
\<close>

definition destroyed :: "zmq_context \<Rightarrow> zmq_context" where
  "destroyed ctx = \<lparr> terminated = True, ctx_sockets = map (\<lambda>s. s\<lparr>closed := True\<rparr>) (ctx_sockets ctx) \<rparr>"

datatype destroy_outcome = Destroyed | DestroyRaises int zmq_context

text \<open>
  \<^verbatim>\<open>
  def __init__(self, topics, context=None, endpoint=DEFAULT_ENDPOINT_SUB,
               ssh_server=None, timeout=1.):
      self.topics = topics
      self.keep_context = context is not None
      self._init_context(context)          # self.context = context or zmq.Context()
      self.endpoint = endpoint
      self.pubsub_socket = self.context.socket(zmq.SUB)
      get_connection(self.pubsub_socket, self.endpoint, ssh_server)
      for topic in self.topics:
          self.pubsub_socket.setsockopt(zmq.SUBSCRIBE, b(topic))
      self._init_poller()
      self.timeout = timeout
  \<close>
  The consumer holds a reference to its context; the model passes the context along as
  explicit state. \<open>pubsub_socket\<close> is the position of the consumer's socket among the
  sockets of the context. The zmq calls of the constructor are taken to succeed.
\<close>

record consumer =
  topics :: "string list"
  keep_context :: bool
  endpoint :: string
  pubsub_socket :: nat

definition CircusConsumer ::
  "string list \<Rightarrow> zmq_context option \<Rightarrow> string \<Rightarrow> consumer \<times> zmq_context" where
  "CircusConsumer tps context ep =
    (let ctx = (case context of Some c \<Rightarrow> c | None \<Rightarrow> new_context);
         sock = \<lparr> closed = False, connected = [ep], subscribed = tps \<rparr>
     in (\<lparr> topics = tps, keep_context = (context \<noteq> None), endpoint = ep,
           pubsub_socket = length (ctx_sockets ctx) \<rparr>,
         ctx\<lparr>ctx_sockets := ctx_sockets ctx @ [sock]\<rparr>))"

text \<open>
  \<^verbatim>\<open>
  def stop(self):
      if self.keep_context:
          return
      try:
          self.context.destroy(0)
      except zmq.ZMQError as e:
          if e.errno == errno.EINTR:
              pass
          else:
              raise
  \<close>
  The result is the exception raised, if any, and the context afterwards.
\<close>

definition stop :: "consumer \<Rightarrow> destroy_outcome \<Rightarrow> zmq_context \<Rightarrow> pyerror option \<times> zmq_context" where
  "stop self d ctx =
    (if keep_context self then (None, ctx)
     else case d of
            Destroyed \<Rightarrow> (None, destroyed ctx)
          | DestroyRaises e ctx' \<Rightarrow>
              if e = EINTR then (None, ctx') else (Some (ZMQError e), ctx'))"

text \<open>\<open>__exit__\<close>: ``On context manager exit, destroy the zmq context'': it calls \<open>stop\<close>.\<close>

definition exit_consumer ::
  "consumer \<Rightarrow> destroy_outcome \<Rightarrow> zmq_context \<Rightarrow> pyerror option \<times> zmq_context" where
  "exit_consumer self d ctx = stop self d ctx"

text \<open>
  \<^verbatim>\<open>
  def iter_messages(self):
      """ Yields tuples of (topic, message) """
      with self:
          while True:
              try:
                  events = dict(self.poller.poll(self.timeout * 1000))
              except zmq.ZMQError as e:
                  if e.errno == errno.EINTR:
                      continue
                  raise
              if len(events) == 0:
                  continue
              topic, message = self.pubsub_socket.recv_multipart()
              yield topic, message
  \<close>
  The loop never ends by itself. What each round of the loop meets is decided outside
  the program: the poll raises \<open>ZMQError\<close>, the poll times out with no event, or the
  socket is readable and \<open>recv_multipart\<close> returns the frames of one message or raises.
  \<open>iter_loop\<close> runs the loop over the rounds that have happened so far and returns the
  pairs yielded and the exception that left the loop, if one did. Unpacking a message
  that does not have exactly two frames raises \<open>ValueError\<close>.
\<close>

datatype recv_result = Frames "string list" | RecvRaises int

datatype poll_event = PollRaises int | PollTimeout | PollReady recv_result

fun iter_loop :: "poll_event list \<Rightarrow> (string \<times> string) list \<times> pyerror option" where
  "iter_loop [] = ([], None)"
| "iter_loop (PollRaises e # rounds) =
     (if e = EINTR then iter_loop rounds else ([], Some (ZMQError e)))"
| "iter_loop (PollTimeout # rounds) = iter_loop rounds"
| "iter_loop (PollReady (RecvRaises e) # rounds) = ([], Some (ZMQError e))"
| "iter_loop (PollReady (Frames fs) # rounds) =
     (case fs of
        [topic, message] \<Rightarrow>
          (case iter_loop rounds of (ys, r) \<Rightarrow> ((topic, message) # ys, r))
      | _ \<Rightarrow> ([], Some ValueError))"

text \<open>
  The loop runs inside \<open>with self\<close>: an exception leaving the loop passes through
  \<open>__exit__\<close>, which returns nothing, so the exception goes on unless \<open>stop\<close> raises
  one of its own. The result is the pairs yielded, the exception raised and the context.
\<close>

definition iter_messages ::
  "consumer \<Rightarrow> poll_event list \<Rightarrow> destroy_outcome \<Rightarrow> zmq_context
     \<Rightarrow> (string \<times> string) list \<times> pyerror option \<times> zmq_context" where
  "iter_messages self rounds d ctx =
    (case iter_loop rounds of
       (ys, None) \<Rightarrow> (ys, None, ctx)
     | (ys, Some e) \<Rightarrow>
         (case exit_consumer self d ctx of
            (None, ctx') \<Rightarrow> (ys, Some e, ctx')
          | (Some e', ctx') \<Rightarrow> (ys, Some e', ctx')))"

text \<open>The two-frame messages that arrived on the socket during the rounds, in order.\<close>

fun received :: "poll_event list \<Rightarrow> (string \<times> string) list" where
  "received [] = []"
| "received (PollReady (Frames [topic, message]) # rounds) = (topic, message) # received rounds"
| "received (_ # rounds) = received rounds"

text \<open>The consumer's socket is closed and its context released.\<close>

definition released :: "consumer \<Rightarrow> zmq_context \<Rightarrow> bool" where
  "released self ctx \<longleftrightarrow>
     terminated ctx \<and> pubsub_socket self < length (ctx_sockets ctx)
     \<and> closed (ctx_sockets ctx ! pubsub_socket self)"


section \<open>config.py: the configuration reader\<close>

subsection \<open>Sequencing computations that can raise\<close>

definition thenE :: "pyerror + 'a \<Rightarrow> ('a \<Rightarrow> pyerror + 'b) \<Rightarrow> pyerror + 'b" where
  "thenE m f = (case m of Inl e \<Rightarrow> Inl e | Inr x \<Rightarrow> f x)"

text \<open>A \<open>for\<close> loop whose body updates a state and may raise.\<close>

fun foldE :: "('s \<Rightarrow> 'a \<Rightarrow> pyerror + 's) \<Rightarrow> 's \<Rightarrow> 'a list \<Rightarrow> pyerror + 's" where
  "foldE f s [] = Inr s"
| "foldE f s (x # xs) = thenE (f s x) (\<lambda>s'. foldE f s' xs)"

text \<open>A list comprehension whose element expression may raise.\<close>

fun mapE :: "('a \<Rightarrow> pyerror + 'b) \<Rightarrow> 'a list \<Rightarrow> pyerror + 'b list" where
  "mapE f [] = Inr []"
| "mapE f (x # xs) = thenE (f x) (\<lambda>y. thenE (mapE f xs) (\<lambda>ys. Inr (y # ys)))"

text \<open>A list comprehension whose condition may raise.\<close>

fun filterE :: "('a \<Rightarrow> pyerror + bool) \<Rightarrow> 'a list \<Rightarrow> pyerror + 'a list" where
  "filterE p [] = Inr []"
| "filterE p (x # xs) =
     thenE (p x) (\<lambda>b. thenE (filterE p xs) (\<lambda>ys. Inr (if b then x # ys else ys)))"

subsection \<open>Strings\<close>

text \<open>
  \<open>s.startswith(p)\<close>, \<open>s.split(sep, 1)\<close> and \<open>s.split(sep)\<close> for a non-empty separator.
  \<open>split_first\<close> finds the first occurrence of the separator and returns what is before
  and after it. \<open>split_all\<close> scans from the left; its second argument counts the
  characters of a separator just matched that remain to be skipped, its third is the
  piece being collected, reversed.
\<close>

definition startswith :: "string \<Rightarrow> string \<Rightarrow> bool" where
  "startswith s p \<longleftrightarrow> take (length p) s = p"

fun split_first :: "string \<Rightarrow> string \<Rightarrow> string \<Rightarrow> (string \<times> string) option" where
  "split_first sep seen [] = None"
| "split_first sep seen (c # cs) =
     (if startswith (c # cs) sep then Some (rev seen, drop (length sep) (c # cs))
      else split_first sep (c # seen) cs)"

definition str_split1 :: "string \<Rightarrow> string \<Rightarrow> string list" where
  "str_split1 s sep = (case split_first sep [] s of None \<Rightarrow> [s] | Some (a, b) \<Rightarrow> [a, b])"

fun split_all :: "string \<Rightarrow> nat \<Rightarrow> string \<Rightarrow> string \<Rightarrow> string list" where
  "split_all sep k piece [] = [rev piece]"
| "split_all sep (Suc k) piece (c # cs) = split_all sep k piece cs"
| "split_all sep 0 piece (c # cs) =
     (if startswith (c # cs) sep then rev piece # split_all sep (length sep - 1) [] cs
      else split_all sep 0 (c # piece) cs)"

definition str_split :: "string \<Rightarrow> string \<Rightarrow> string list" where
  "str_split s sep = split_all sep 0 [] s"

subsection \<open>Dictionaries\<close>

text \<open>
  \<open>d[k] = v\<close> replaces the value of an existing key in place and appends a new key;
  \<open>dict(pairs)\<close> and \<open>d.update(e)\<close> store the pairs one after the other.
\<close>

definition dict_set :: "pydict \<Rightarrow> string \<Rightarrow> pyval \<Rightarrow> pydict" where
  "dict_set d k v = AList.update k v d"

definition dict_update :: "pydict \<Rightarrow> pydict \<Rightarrow> pydict" where
  "dict_update d e = foldl (\<lambda>d (k, v). dict_set d k v) d e"

definition dict_from :: "(string \<times> string) list \<Rightarrow> pydict" where
  "dict_from pairs = dict_update [] (map (\<lambda>(k, v). (k, PStr v)) pairs)"

definition dict_get :: "pydict \<Rightarrow> string \<Rightarrow> pyerror + pyval" where
  "dict_get d k = (case map_of d k of None \<Rightarrow> Inl KeyError | Some v \<Rightarrow> Inr v)"

subsection \<open>What the reader takes from elsewhere\<close>

text \<open>
  \<open>circus.util\<close> (\<open>replace_gnu_args\<close>, \<open>to_bool\<close>, \<open>to_signum\<close>, \<open>papa\<close>, the default
  endpoints) and \<open>circus.py3compat\<close> (\<open>sort_by_field\<close>) are not among the sources at
  hand, and neither are Python's built-in conversions, \<open>fnmatch\<close>, \<open>os.environ\<close>,
  \<open>signal.SIGTERM\<close> and \<open>resource.RLIM_INFINITY\<close>. They are the fields of \<open>platform\<close>.
  A conversion returns \<open>None\<close> where the Python raises \<open>ValueError\<close>.
  \<open>RLIM_INFINITY\<close> is \<open>None\<close> when the \<open>resource\<close> module cannot be imported.
  \<open>sort_by_field\<close> sorts a list of dictionaries in place: it is given the
  dictionaries as listed and returns the order it leaves them in, as positions in the
  list it was given.
\<close>

record platform =
  os_environ :: environ
  replace_gnu_args :: "string \<Rightarrow> pydict \<Rightarrow> string"
  to_bool :: "string \<Rightarrow> bool option"
  to_signum :: "string \<Rightarrow> int option"
  py_int :: "string \<Rightarrow> int option"
  py_int_base8 :: "string \<Rightarrow> int option"
  py_float :: "string \<Rightarrow> pyfloat option"
  str_lower :: "string \<Rightarrow> string"
  str_strip :: "string \<Rightarrow> string"
  fnmatch :: "string \<Rightarrow> string \<Rightarrow> bool"
  sort_by_field :: "pydict list \<Rightarrow> nat list"
  RLIM_INFINITY :: "int option"
  papa :: bool
  SIGTERM :: int
  DEFAULT_ENDPOINT_DEALER :: string
  DEFAULT_ENDPOINT_SUB :: string
  DEFAULT_ENDPOINT_MULTICAST :: string
  DEFAULT_ENDPOINT_STATS :: string

definition reorder :: "'a list \<Rightarrow> nat list \<Rightarrow> 'a list" where
  "reorder xs order = map (\<lambda>i. xs ! i) (filter (\<lambda>i. i < length xs) order)"

subsection \<open>The parsed file\<close>

text \<open>
  \<open>read_config\<close> parses the file and its includes with \<open>StrictConfigParser\<close>, which is
  not among the sources at hand. The reader works on what the parser holds: the
  sections in order, each with its options and their raw values. A section name
  occurs once (the parser keeps sections in a dictionary), option names are in lower
  case and occur once per section.
\<close>

type_synonym parsed = "(string \<times> (string \<times> string) list) list"

definition sections :: "parsed \<Rightarrow> string list" where
  "sections cfg = map fst cfg"

definition has_option :: "parsed \<Rightarrow> string \<Rightarrow> string \<Rightarrow> bool" where
  "has_option cfg section option =
     (case map_of cfg section of None \<Rightarrow> False | Some its \<Rightarrow> option \<in> set (map fst its))"

text \<open>
  \<open>DefaultConfigParser.get\<close> and \<open>DefaultConfigParser.items\<close>: the values of the parser,
  passed through \<open>replace_gnu_args\<close> with the environment \<open>_env\<close> of the parser (the
  argument \<open>env\<close>) unless \<open>noreplace\<close> is set.
\<close>

definition cfg_get :: "platform \<Rightarrow> parsed \<Rightarrow> pydict \<Rightarrow> string \<Rightarrow> string \<Rightarrow> pyerror + string" where
  "cfg_get P cfg env section option =
     (case map_of cfg section of
        None \<Rightarrow> Inl NoSectionError
      | Some its \<Rightarrow>
          (case map_of its option of
             None \<Rightarrow> Inl NoOptionError
           | Some res \<Rightarrow> Inr (replace_gnu_args P res env)))"

definition cfg_items ::
  "platform \<Rightarrow> parsed \<Rightarrow> pydict \<Rightarrow> string \<Rightarrow> bool \<Rightarrow> pyerror + (string \<times> string) list" where
  "cfg_items P cfg env section noreplace =
     (case map_of cfg section of
        None \<Rightarrow> Inl NoSectionError
      | Some its \<Rightarrow>
          Inr (if noreplace then its
               else map (\<lambda>(key, v). (key, replace_gnu_args P v env)) its))"

text \<open>
  \<^verbatim>\<open>
  @staticmethod
  def _dget(value, default=None, type=str):
      if value is None:
          return default
      if type is int:
          value = int(value)
      elif type is bool:
          value = to_bool(value)
      elif type is float:
          value = float(value)
      elif type is not str:
          raise NotImplementedError()
      return value

  def dget(self, section, option, default=None, type=str):
      if not self.has_option(section, option):
          return default
      return self._dget(self.get(section, option), default, type)
  \<close>
\<close>

datatype pytype = TStr | TInt | TBool | TFloat | TOther

fun dget_static :: "platform \<Rightarrow> string option \<Rightarrow> pyval \<Rightarrow> pytype \<Rightarrow> pyerror + pyval" where
  "dget_static P None dflt ty = Inr dflt"
| "dget_static P (Some v) dflt TInt =
     (case py_int P v of None \<Rightarrow> Inl ValueError | Some i \<Rightarrow> Inr (PInt i))"
| "dget_static P (Some v) dflt TBool =
     (case to_bool P v of None \<Rightarrow> Inl ValueError | Some b \<Rightarrow> Inr (PBool b))"
| "dget_static P (Some v) dflt TFloat =
     (case py_float P v of None \<Rightarrow> Inl ValueError | Some f \<Rightarrow> Inr (PFloat f))"
| "dget_static P (Some v) dflt TOther = Inl NotImplementedError"
| "dget_static P (Some v) dflt TStr = Inr (PStr v)"

definition dget ::
  "platform \<Rightarrow> parsed \<Rightarrow> pydict \<Rightarrow> string \<Rightarrow> string \<Rightarrow> pyval \<Rightarrow> pytype \<Rightarrow> pyerror + pyval" where
  "dget P cfg env section option dflt ty =
     (if \<not> has_option cfg section option then Inr dflt
      else thenE (cfg_get P cfg env section option)
             (\<lambda>v. dget_static P (Some v) dflt ty))"

text \<open>
  \<^verbatim>\<open>
  def rlimit_value(val):
      if resource is not None and (val is None or len(val) == 0):
          return resource.RLIM_INFINITY
      else:
          return int(val)
  \<close>
  \<open>int(None)\<close> raises \<open>TypeError\<close>.
\<close>

definition rlimit_value :: "platform \<Rightarrow> string option \<Rightarrow> pyerror + pyval" where
  "rlimit_value P val =
     (if RLIM_INFINITY P \<noteq> None \<and> (val = None \<or> length (the val) = 0)
      then Inr (PInt (the (RLIM_INFINITY P)))
      else (case val of
              None \<Rightarrow> Inl TypeError
            | Some v \<Rightarrow> (case py_int P v of None \<Rightarrow> Inl ValueError | Some i \<Rightarrow> Inr (PInt i))))"

subsection \<open>The main options\<close>

text \<open>Python's truth value of an object, as \<open>if x\<close> and \<open>not x\<close> test it.\<close>

fun truthy :: "pyval \<Rightarrow> bool" where
  "truthy PNone = False"
| "truthy (PBool b) = b"
| "truthy (PInt i) = (i \<noteq> 0)"
| "truthy (PFloat f) = (f \<noteq> Finite 0)"
| "truthy (PStr s) = (s \<noteq> [])"
| "truthy (PDict d) = (d \<noteq> [])"
| "truthy (PList l) = (l \<noteq> [])"

text \<open>\<open>config[key] = dget('circus', key, dflt, ty)\<close>\<close>

definition set_main_option ::
  "platform \<Rightarrow> parsed \<Rightarrow> pydict \<Rightarrow> pydict \<Rightarrow> string \<Rightarrow> pyval \<Rightarrow> pytype \<Rightarrow> pyerror + pydict" where
  "set_main_option P cfg env config key dflt ty =
     thenE (dget P cfg env ''circus'' key dflt ty) (\<lambda>v. Inr (dict_set config key v))"

text \<open>
  \<^verbatim>\<open>
  config['umask'] = dget('circus', 'umask', None)
  if config['umask']:
      config['umask'] = int(config['umask'], 8)
  \<close>
  The value is \<open>None\<close> or a string.
\<close>

definition set_umask :: "platform \<Rightarrow> parsed \<Rightarrow> pydict \<Rightarrow> pydict \<Rightarrow> pyerror + pydict" where
  "set_umask P cfg env config =
     thenE (set_main_option P cfg env config ''umask'' PNone TStr) (\<lambda>config.
     thenE (dict_get config ''umask'') (\<lambda>umask.
       if truthy umask then
         (case umask of
            PStr s \<Rightarrow> (case py_int_base8 P s of
                         None \<Rightarrow> Inl ValueError
                       | Some i \<Rightarrow> Inr (dict_set config ''umask'' (PInt i)))
          | _ \<Rightarrow> Inl TypeError)
       else Inr config))"

text \<open>
  \<^verbatim>\<open>
  if config['stats_endpoint'] is None:
      config['stats_endpoint'] = DEFAULT_ENDPOINT_STATS
  elif not config['statsd']:
      warnings.warn("You defined a stats_endpoint without "
                    "setting up statsd to True.", DeprecationWarning)
      config['statsd'] = True
  \<close>
\<close>

definition fix_stats :: "platform \<Rightarrow> pydict \<Rightarrow> pyerror + pydict" where
  "fix_stats P config =
     thenE (dict_get config ''stats_endpoint'') (\<lambda>stats_endpoint.
       if stats_endpoint = PNone
       then Inr (dict_set config ''stats_endpoint'' (PStr (DEFAULT_ENDPOINT_STATS P)))
       else thenE (dict_get config ''statsd'') (\<lambda>statsd.
              if \<not> truthy statsd then Inr (dict_set config ''statsd'' (PBool True))
              else Inr config))"

text \<open>
  Lines 170 to 202 of \<open>get_config\<close>, in the order of the source. \<open>env\<close> is the
  environment the parser was given by \<open>cfg.set_env(global_env)\<close>.
\<close>

definition main_options :: "platform \<Rightarrow> parsed \<Rightarrow> pydict \<Rightarrow> pyerror + pydict" where
  "main_options P cfg env =
     thenE (set_main_option P cfg env [] ''check_delay'' (PFloat (Finite 5)) TFloat) (\<lambda>config.
     thenE (set_main_option P cfg env config ''endpoint''
              (PStr (DEFAULT_ENDPOINT_DEALER P)) TStr) (\<lambda>config.
     thenE (set_main_option P cfg env config ''endpoint_owner'' PNone TStr) (\<lambda>config.
     thenE (set_main_option P cfg env config ''pubsub_endpoint''
              (PStr (DEFAULT_ENDPOINT_SUB P)) TStr) (\<lambda>config.
     thenE (set_main_option P cfg env config ''multicast_endpoint''
              (PStr (DEFAULT_ENDPOINT_MULTICAST P)) TStr) (\<lambda>config.
     thenE (set_main_option P cfg env config ''stats_endpoint'' PNone TStr) (\<lambda>config.
     thenE (set_main_option P cfg env config ''statsd'' (PBool False) TBool) (\<lambda>config.
     thenE (set_umask P cfg env config) (\<lambda>config.
     thenE (fix_stats P config) (\<lambda>config.
     thenE (set_main_option P cfg env config ''warmup_delay'' (PInt 0) TInt) (\<lambda>config.
     thenE (set_main_option P cfg env config ''httpd'' (PBool False) TBool) (\<lambda>config.
     thenE (set_main_option P cfg env config ''httpd_host'' (PStr ''localhost'') TStr) (\<lambda>config.
     thenE (set_main_option P cfg env config ''httpd_port'' (PInt 8080) TInt) (\<lambda>config.
     thenE (set_main_option P cfg env config ''debug'' (PBool False) TBool) (\<lambda>config.
     thenE (set_main_option P cfg env config ''debug_gc'' (PBool False) TBool) (\<lambda>config.
     thenE (set_main_option P cfg env config ''pidfile'' PNone TStr) (\<lambda>config.
     thenE (set_main_option P cfg env config ''loglevel'' PNone TStr) (\<lambda>config.
     thenE (set_main_option P cfg env config ''logoutput'' PNone TStr) (\<lambda>config.
     thenE (set_main_option P cfg env config ''loggerconfig'' PNone TStr) (\<lambda>config.
     thenE (set_main_option P cfg env config ''fqdn_prefix'' PNone TStr) (\<lambda>config.
     set_main_option P cfg env config ''papa_endpoint'' PNone TStr))))))))))))))))))))"

subsection \<open>Watchers, plugins and sockets\<close>

text \<open>
  \<^verbatim>\<open>
  def watcher_defaults():
      return {'name': '', 'cmd': '', 'args': '', 'numprocesses': 1, 'warmup_delay': 0,
              'executable': None, 'working_dir': None, 'shell': False, 'uid': None,
              'gid': None, 'send_hup': False, 'stop_signal': signal.SIGTERM,
              'stop_children': False, 'max_retry': 5, 'graceful_timeout': 30,
              'rlimits': dict(), 'stderr_stream': dict(), 'stdout_stream': dict(),
              'priority': 0, 'use_sockets': False, 'singleton': False,
              'copy_env': False, 'copy_path': False, 'hooks': dict(),
              'respawn': True, 'autostart': True, 'use_papa': False}
  \<close>
\<close>

definition watcher_defaults :: "platform \<Rightarrow> pydict" where
  "watcher_defaults P =
     [(''name'', PStr ''''), (''cmd'', PStr ''''), (''args'', PStr ''''),
      (''numprocesses'', PInt 1), (''warmup_delay'', PInt 0), (''executable'', PNone),
      (''working_dir'', PNone), (''shell'', PBool False), (''uid'', PNone), (''gid'', PNone),
      (''send_hup'', PBool False), (''stop_signal'', PInt (SIGTERM P)),
      (''stop_children'', PBool False), (''max_retry'', PInt 5),
      (''graceful_timeout'', PInt 30), (''rlimits'', PDict []), (''stderr_stream'', PDict []),
      (''stdout_stream'', PDict []), (''priority'', PInt 0), (''use_sockets'', PBool False),
      (''singleton'', PBool False), (''copy_env'', PBool False), (''copy_path'', PBool False),
      (''hooks'', PDict []), (''respawn'', PBool True), (''autostart'', PBool True),
      (''use_papa'', PBool False)]"

text \<open>
  The lists \<open>sockets\<close> and \<open>plugins\<close> hold dictionaries. The dictionaries of the
  watchers are shared between the list \<open>watchers\<close> and \<open>watchers_map\<close> and are changed
  in place later on: they live in \<open>watchers_map\<close>, under their section, and
  \<open>watchers\<close> lists the sections.
\<close>

record collected =
  watchers :: "string list"
  watchers_map :: "(string \<times> pydict) list"
  plugins :: "pydict list"
  sockets :: "pydict list"

definition the_watcher :: "(string \<times> pydict) list \<Rightarrow> string \<Rightarrow> pyerror + pydict" where
  "the_watcher wmap section =
     (case map_of wmap section of None \<Rightarrow> Inl KeyError | Some w \<Rightarrow> Inr w)"

text \<open>\<open>xs[i]\<close> for a position counted from the start.\<close>

definition item :: "'a list \<Rightarrow> nat \<Rightarrow> pyerror + 'a" where
  "item xs i = (if i < length xs then Inr (xs ! i) else Inl IndexError)"

text \<open>
  The first loop over the sections (lines 210 to 240).
  \<^verbatim>\<open>
  for section in cfg.sections():
      section_items = dict(cfg.items(section))
      if list(section_items.keys()) in [[], ['__name__']]:
          continue
      if section.startswith("socket:"):
          sock = section_items
          sock['name'] = section.split("socket:")[-1].lower()
          sock['so_reuseport'] = dget(section, "so_reuseport", False, bool)
          sock['replace'] = dget(section, "replace", False, bool)
          sockets.append(sock)
      if section.startswith("plugin:"):
          plugin = section_items
          plugin['name'] = section
          if 'priority' in plugin:
              plugin['priority'] = int(plugin['priority'])
          plugins.append(plugin)
      if section.startswith("watcher:"):
          watcher = watcher_defaults()
          watcher['name'] = section.split("watcher:", 1)[1]
          watcher['copy_env'] = dget(section, 'copy_env', False, bool)
          if watcher['copy_env']:
              watcher['env'] = dict(global_env)
          else:
              watcher['env'] = dict(local_env)
          watchers.append(watcher)
          watchers_map[section] = watcher
  \<close>
  \<open>sock\<close> and \<open>plugin\<close> are the dictionary \<open>section_items\<close> itself, so it is passed
  from one \<open>if\<close> to the next. The value under \<open>priority\<close> of a plugin is a string of
  the section.
\<close>

definition collect_socket ::
  "platform \<Rightarrow> parsed \<Rightarrow> pydict \<Rightarrow> string \<Rightarrow> pydict \<Rightarrow> pyerror + pydict" where
  "collect_socket P cfg global_env section section_items =
     (let sock = dict_set section_items ''name''
                   (PStr (str_lower P (last (str_split section ''socket:'')))) in
      thenE (dget P cfg global_env section ''so_reuseport'' (PBool False) TBool) (\<lambda>r.
      let sock = dict_set sock ''so_reuseport'' r in
      thenE (dget P cfg global_env section ''replace'' (PBool False) TBool) (\<lambda>r.
      Inr (dict_set sock ''replace'' r))))"

definition collect_plugin :: "platform \<Rightarrow> string \<Rightarrow> pydict \<Rightarrow> pyerror + pydict" where
  "collect_plugin P section section_items =
     (let plugin = dict_set section_items ''name'' (PStr section) in
      if ''priority'' \<in> set (map fst plugin) then
        thenE (dict_get plugin ''priority'') (\<lambda>p.
          case p of
            PStr s \<Rightarrow> (case py_int P s of
                         None \<Rightarrow> Inl ValueError
                       | Some i \<Rightarrow> Inr (dict_set plugin ''priority'' (PInt i)))
          | _ \<Rightarrow> Inl TypeError)
      else Inr plugin)"

definition collect_watcher ::
  "platform \<Rightarrow> parsed \<Rightarrow> pydict \<Rightarrow> pydict \<Rightarrow> string \<Rightarrow> pyerror + pydict" where
  "collect_watcher P cfg global_env local_env section =
     (let watcher = watcher_defaults P in
      thenE (item (str_split1 section ''watcher:'') 1) (\<lambda>name.
      let watcher = dict_set watcher ''name'' (PStr name) in
      thenE (dget P cfg global_env section ''copy_env'' (PBool False) TBool) (\<lambda>copy_env.
      let watcher = dict_set watcher ''copy_env'' copy_env in
      if truthy copy_env then Inr (dict_set watcher ''env'' (PDict global_env))
      else Inr (dict_set watcher ''env'' (PDict local_env)))))"

definition collect_section ::
  "platform \<Rightarrow> parsed \<Rightarrow> pydict \<Rightarrow> pydict \<Rightarrow> collected \<Rightarrow> string \<Rightarrow> pyerror + collected" where
  "collect_section P cfg global_env local_env st section =
     thenE (cfg_items P cfg global_env section False) (\<lambda>its.
     let section_items = dict_from its in
     if map fst section_items \<in> set [[], [''__name__'']] then Inr st
     else
       thenE (if startswith section ''socket:'' then
                thenE (collect_socket P cfg global_env section section_items) (\<lambda>sock.
                  Inr (sock, st\<lparr>sockets := sockets st @ [sock]\<rparr>))
              else Inr (section_items, st)) (\<lambda>(section_items, st).
       thenE (if startswith section ''plugin:'' then
                thenE (collect_plugin P section section_items) (\<lambda>plugin.
                  Inr (st\<lparr>plugins := plugins st @ [plugin]\<rparr>))
              else Inr st) (\<lambda>st.
       if startswith section ''watcher:'' then
         thenE (collect_watcher P cfg global_env local_env section) (\<lambda>watcher.
           Inr (st\<lparr>watchers := watchers st @ [section],
                   watchers_map := AList.update section watcher (watchers_map st)\<rparr>))
       else Inr st)))"

text \<open>
  The environments of the \<open>env:\<close> sections (lines 248 to 258).
  \<^verbatim>\<open>
  for section in cfg.sections():
      if section.startswith('env:'):
          section_elements = section.split("env:", 1)[1]
          watcher_patterns = [s.strip() for s in section_elements.split(',')]
          env_items = dict(cfg.items(section, noreplace=True))
          for pattern in watcher_patterns:
              match = [w for w in watchers if fnmatch(w['name'], pattern)]
              for watcher in match:
                  watcher['env'].update(env_items)
  \<close>
  \<open>fnmatch\<close> wants a string and \<open>update\<close> a dictionary.
\<close>

definition name_matches ::
  "platform \<Rightarrow> (string \<times> pydict) list \<Rightarrow> string \<Rightarrow> string \<Rightarrow> pyerror + bool" where
  "name_matches P wmap pattern w =
     thenE (the_watcher wmap w) (\<lambda>watcher.
     thenE (dict_get watcher ''name'') (\<lambda>n.
       case n of PStr name \<Rightarrow> Inr (fnmatch P name pattern) | _ \<Rightarrow> Inl TypeError))"

definition update_env ::
  "pydict \<Rightarrow> (string \<times> pydict) list \<Rightarrow> string \<Rightarrow> pyerror + (string \<times> pydict) list" where
  "update_env env_items wmap w =
     thenE (the_watcher wmap w) (\<lambda>watcher.
     thenE (dict_get watcher ''env'') (\<lambda>e.
       case e of
         PDict env \<Rightarrow>
           Inr (AList.update w (dict_set watcher ''env'' (PDict (dict_update env env_items))) wmap)
       | _ \<Rightarrow> Inl TypeError))"

definition env_section ::
  "platform \<Rightarrow> parsed \<Rightarrow> pydict \<Rightarrow> string list \<Rightarrow> (string \<times> pydict) list \<Rightarrow> string
     \<Rightarrow> pyerror + (string \<times> pydict) list" where
  "env_section P cfg global_env watcher_list wmap section =
     (if startswith section ''env:'' then
        thenE (item (str_split1 section ''env:'') 1) (\<lambda>section_elements.
        let watcher_patterns = map (str_strip P) (str_split section_elements '','') in
        thenE (cfg_items P cfg global_env section True) (\<lambda>its.
        let env_items = dict_from its in
        foldE (\<lambda>wmap pattern.
                 thenE (filterE (name_matches P wmap pattern) watcher_list) (\<lambda>match.
                 foldE (update_env env_items) wmap match))
              wmap watcher_patterns))
      else Inr wmap)"

text \<open>
  The options of a watcher section (lines 269 to 322), one option at a time.
  \<^verbatim>\<open>
  for opt, val in cfg.items(section, noreplace=True):
      val = expand_vars(val, env)
      if opt in ('cmd', 'args', 'working_dir', 'uid', 'gid'):
          watcher[opt] = val
      elif opt == 'numprocesses':
          watcher['numprocesses'] = cfg._dget(val, 1, int)
      elif opt == 'warmup_delay':
          watcher['warmup_delay'] = cfg._dget(val, 0, int)
      elif opt == 'executable':
          watcher['executable'] = cfg._dget(val, None, str)
      # default bool to False
      elif opt in ('shell', 'send_hup', 'stop_children', 'close_child_stderr',
                   'use_sockets', 'singleton', 'copy_env', 'copy_path',
                   'close_child_stdout'):
          watcher[opt] = cfg._dget(val, False, bool)
      elif opt == 'stop_signal':
          watcher['stop_signal'] = to_signum(val)
      elif opt == 'max_retry':
          watcher['max_retry'] = cfg._dget(val, 5, int)
      elif opt == 'graceful_timeout':
          watcher['graceful_timeout'] = cfg._dget(val, 30, int)
      elif opt.startswith('stderr_stream') or opt.startswith('stdout_stream'):
          stream_name, stream_opt = opt.split(".", 1)
          watcher[stream_name][stream_opt] = val
      elif opt.startswith('rlimit_'):
          limit = opt[7:]
          watcher['rlimits'][limit] = rlimit_value(val)
      elif opt == 'priority':
          watcher['priority'] = cfg._dget(val, 0, int)
      elif opt == 'use_papa' and cfg._dget(val, False, bool):
          if papa:
              watcher['use_papa'] = True
          else:
              warnings.warn(...)
      elif opt.startswith('hooks.'):
          hook_name = opt[len('hooks.'):]
          val = [elmt.strip() for elmt in val.split(',', 1)]
          if len(val) == 1:
              val.append(False)
          else:
              val[1] = to_bool(val[1])
          watcher['hooks'][hook_name] = val
      # default bool to True
      elif opt in ('check_flapping', 'respawn', 'autostart', 'close_child_stdin'):
          watcher[opt] = cfg._dget(val, True, bool)
      else:
          # freeform
          watcher[opt] = val
  \<close>
  \<open>watcher[key][k] = v\<close> raises \<open>KeyError\<close> when \<open>key\<close> is missing and \<open>TypeError\<close>
  when the value under \<open>key\<close> is not a dictionary. Unpacking
  \<open>stream_name, stream_opt\<close> raises \<open>ValueError\<close> when the option has no dot.
\<close>

definition set_converted ::
  "platform \<Rightarrow> pydict \<Rightarrow> string \<Rightarrow> string \<Rightarrow> pyval \<Rightarrow> pytype \<Rightarrow> pyerror + pydict" where
  "set_converted P watcher key val dflt ty =
     thenE (dget_static P (Some val) dflt ty) (\<lambda>v. Inr (dict_set watcher key v))"

definition set_nested :: "pydict \<Rightarrow> string \<Rightarrow> string \<Rightarrow> pyval \<Rightarrow> pyerror + pydict" where
  "set_nested watcher key k v =
     thenE (dict_get watcher key) (\<lambda>d.
       case d of
         PDict inner \<Rightarrow> Inr (dict_set watcher key (PDict (dict_set inner k v)))
       | _ \<Rightarrow> Inl TypeError)"

definition hook_value :: "platform \<Rightarrow> string \<Rightarrow> pyerror + pyval" where
  "hook_value P val =
     (case map (str_strip P) (str_split1 val '','') of
        [target] \<Rightarrow> Inr (PList [PStr target, PBool False])
      | [target, flag] \<Rightarrow>
          (case to_bool P flag of
             None \<Rightarrow> Inl ValueError
           | Some b \<Rightarrow> Inr (PList [PStr target, PBool b]))
      | _ \<Rightarrow> Inl IndexError)"

definition watcher_option ::
  "platform \<Rightarrow> pydict \<Rightarrow> pydict \<Rightarrow> string \<times> string \<Rightarrow> pyerror + pydict" where
  "watcher_option P env watcher ov =
    (case ov of (opt, raw) \<Rightarrow>
     (case expand_vars (replace_gnu_args P) (PStr raw) env of
        PStr val \<Rightarrow>
          if opt \<in> set [''cmd'', ''args'', ''working_dir'', ''uid'', ''gid'']
          then Inr (dict_set watcher opt (PStr val))
          else if opt = ''numprocesses''
          then set_converted P watcher ''numprocesses'' val (PInt 1) TInt
          else if opt = ''warmup_delay''
          then set_converted P watcher ''warmup_delay'' val (PInt 0) TInt
          else if opt = ''executable''
          then set_converted P watcher ''executable'' val PNone TStr
          else if opt \<in> set [''shell'', ''send_hup'', ''stop_children'', ''close_child_stderr'',
                              ''use_sockets'', ''singleton'', ''copy_env'', ''copy_path'',
                              ''close_child_stdout'']
          then set_converted P watcher opt val (PBool False) TBool
          else if opt = ''stop_signal''
          then (case to_signum P val of
                  None \<Rightarrow> Inl ValueError
                | Some n \<Rightarrow> Inr (dict_set watcher ''stop_signal'' (PInt n)))
          else if opt = ''max_retry''
          then set_converted P watcher ''max_retry'' val (PInt 5) TInt
          else if opt = ''graceful_timeout''
          then set_converted P watcher ''graceful_timeout'' val (PInt 30) TInt
          else if startswith opt ''stderr_stream'' \<or> startswith opt ''stdout_stream''
          then (case str_split1 opt ''.'' of
                  [stream_name, stream_opt] \<Rightarrow>
                    set_nested watcher stream_name stream_opt (PStr val)
                | _ \<Rightarrow> Inl ValueError)
          else if startswith opt ''rlimit_''
          then thenE (rlimit_value P (Some val)) (\<lambda>v.
                 set_nested watcher ''rlimits'' (drop 7 opt) v)
          else if opt = ''priority''
          then set_converted P watcher ''priority'' val (PInt 0) TInt
          else
            thenE (if opt = ''use_papa''
                   then thenE (dget_static P (Some val) (PBool False) TBool)
                          (\<lambda>b. Inr (truthy b))
                   else Inr False) (\<lambda>use_papa.
            if use_papa
            then Inr (if papa P then dict_set watcher ''use_papa'' (PBool True) else watcher)
            else if startswith opt ''hooks.''
            then thenE (hook_value P val) (\<lambda>v.
                   set_nested watcher ''hooks'' (drop (length ''hooks.'') opt) v)
            else if opt \<in> set [''check_flapping'', ''respawn'', ''autostart'',
                                ''close_child_stdin'']
            then set_converted P watcher opt val (PBool True) TBool
            else Inr (dict_set watcher opt (PStr val)))
      | _ \<Rightarrow> Inl TypeError))"

text \<open>
  The second loop over the sections (lines 261 to 322).
  \<^verbatim>\<open>
  for section in cfg.sections():
      if section.startswith("watcher:"):
          watcher = watchers_map[section]
          env = dict(global_env)
          env.update(watcher['env'])
          for opt, val in cfg.items(section, noreplace=True):
              ...
  \<close>
\<close>

definition watcher_section ::
  "platform \<Rightarrow> parsed \<Rightarrow> pydict \<Rightarrow> (string \<times> pydict) list \<Rightarrow> string
     \<Rightarrow> pyerror + (string \<times> pydict) list" where
  "watcher_section P cfg global_env wmap section =
     (if startswith section ''watcher:'' then
        thenE (the_watcher wmap section) (\<lambda>watcher.
        thenE (dict_get watcher ''env'') (\<lambda>e.
          case e of
            PDict watcher_env \<Rightarrow>
              (let env = dict_update global_env watcher_env in
               thenE (cfg_items P cfg global_env section True) (\<lambda>its.
               thenE (foldE (watcher_option P env) watcher its) (\<lambda>watcher.
                 Inr (AList.update section watcher wmap))))
          | _ \<Rightarrow> Inl TypeError))
      else Inr wmap)"

text \<open>
  \<open>get_config\<close>, from the parsed file on (\<open>get_config\<close> raises \<open>IOError\<close> before when
  the file does not exist). \<open>cfg._env\<close> is \<open>dict(os.environ)\<close> until
  \<open>cfg.set_env(global_env)\<close>, so the items of \<open>[env]\<close> are read with that.
  \<^verbatim>\<open>
  global_env = dict(os.environ.items())
  local_env = dict()
  if 'env' in cfg.sections():
      local_env.update(dict(cfg.items('env')))
      global_env.update(local_env)
  cfg.set_env(global_env)
  ...                                   # the main options
  ...                                   # the first loop
  sort_by_field(watchers)
  sort_by_field(plugins)
  sort_by_field(sockets)
  ...                                   # the env: sections, the second loop
  config['watchers'] = watchers
  config['plugins'] = plugins
  config['sockets'] = sockets
  return config
  \<close>
\<close>

definition read_env :: "platform \<Rightarrow> parsed \<Rightarrow> pyerror + (pydict \<times> pydict)" where
  "read_env P cfg =
     (let global_env = dict_from (os_environ P); local_env = [] in
      if ''env'' \<in> set (sections cfg) then
        thenE (cfg_items P cfg (dict_from (os_environ P)) ''env'' False) (\<lambda>its.
        let local_env = dict_update local_env (dict_from its) in
        Inr (local_env, dict_update global_env local_env))
      else Inr (local_env, global_env))"

definition get_config :: "platform \<Rightarrow> parsed \<Rightarrow> pyerror + pydict" where
  "get_config P cfg =
     thenE (read_env P cfg) (\<lambda>(local_env, global_env).
     thenE (main_options P cfg global_env) (\<lambda>config.
     thenE (foldE (collect_section P cfg global_env local_env)
              \<lparr>watchers = [], watchers_map = [], plugins = [], sockets = []\<rparr>
              (sections cfg)) (\<lambda>st.
     thenE (mapE (the_watcher (watchers_map st)) (watchers st)) (\<lambda>ws.
     let watcher_list = reorder (watchers st) (sort_by_field P ws);
         plugin_list = reorder (plugins st) (sort_by_field P (plugins st));
         socket_list = reorder (sockets st) (sort_by_field P (sockets st)) in
     thenE (foldE (env_section P cfg global_env watcher_list) (watchers_map st)
              (sections cfg)) (\<lambda>wmap.
     thenE (foldE (watcher_section P cfg global_env) wmap (sections cfg)) (\<lambda>wmap.
     thenE (mapE (the_watcher wmap) watcher_list) (\<lambda>ws.
     let config = dict_set config ''watchers'' (PList (map PDict ws));
         config = dict_set config ''plugins'' (PList (map PDict plugin_list));
         config = dict_set config ''sockets'' (PList (map PDict socket_list))
     in Inr config)))))))"

text \<open>
  The list \<open>watchers\<close> as the first loop leaves it, before \<open>sort_by_field(watchers)\<close>
  (line 243): the sections the dictionaries were collected from, and the dictionaries.
\<close>

definition collected_watchers ::
  "platform \<Rightarrow> parsed \<Rightarrow> pyerror + (string list \<times> pydict list)" where
  "collected_watchers P cfg =
     thenE (read_env P cfg) (\<lambda>(local_env, global_env).
     thenE (foldE (collect_section P cfg global_env local_env)
              \<lparr>watchers = [], watchers_map = [], plugins = [], sockets = []\<rparr>
              (sections cfg)) (\<lambda>st.
     thenE (mapE (the_watcher (watchers_map st)) (watchers st)) (\<lambda>ws.
     Inr (watchers st, ws))))"

text \<open>
  The list \<open>watchers\<close> as it stands after \<open>sort_by_field(watchers)\<close> (line 243), each
  dictionary named by the section it was collected from. The second loop changes the
  dictionaries in place, not the list, so this is also the order of the list returned
  under \<open>watchers\<close>.
\<close>

definition listed_sections :: "platform \<Rightarrow> parsed \<Rightarrow> pyerror + string list" where
  "listed_sections P cfg =
     thenE (read_env P cfg) (\<lambda>(local_env, global_env).
     thenE (foldE (collect_section P cfg global_env local_env)
              \<lparr>watchers = [], watchers_map = [], plugins = [], sockets = []\<rparr>
              (sections cfg)) (\<lambda>st.
     thenE (mapE (the_watcher (watchers_map st)) (watchers st)) (\<lambda>ws.
     Inr (reorder (watchers st) (sort_by_field P ws)))))"

text \<open>The dictionaries under \<open>watchers\<close> of a returned snapshot, in the order of the list.\<close>

definition watcher_dicts :: "pyerror + pydict \<Rightarrow> pydict list" where
  "watcher_dicts r =
     (case r of
        Inr snap \<Rightarrow>
          (case map_of snap ''watchers'' of
             Some (PList ws) \<Rightarrow> concat (map (\<lambda>w. case w of PDict d \<Rightarrow> [d] | _ \<Rightarrow> []) ws)
           | _ \<Rightarrow> [])
      | Inl e \<Rightarrow> [])"

text \<open>The value of a variable in the environment a watcher dictionary holds under \<open>env\<close>.\<close>

definition env_var :: "pydict \<Rightarrow> string \<Rightarrow> pyval option" where
  "env_var w name =
     (case map_of w ''env'' of Some (PDict e) \<Rightarrow> map_of e name | _ \<Rightarrow> None)"

text \<open>The limit a watcher dictionary holds for a resource under \<open>rlimits\<close>.\<close>

definition rlimit_of :: "pydict \<Rightarrow> string \<Rightarrow> pyval option" where
  "rlimit_of w name =
     (case map_of w ''rlimits'' of Some (PDict r) \<Rightarrow> map_of r name | _ \<Rightarrow> None)"

text \<open>The priority a watcher dictionary holds.\<close>

definition priority_of :: "pydict \<Rightarrow> int" where
  "priority_of w = (case map_of w ''priority'' of Some (PInt i) \<Rightarrow> i | _ \<Rightarrow> 0)"

subsection \<open>A platform to run the reader on\<close>

text \<open>
  An instance of \<open>platform\<close> for evaluating \<open>get_config\<close> on concrete files: decimal
  and octal numerals with an optional sign, the two spellings of each boolean, values
  without \<open>$(...)\<close> references (which \<open>replace_gnu_args\<close> leaves as they are), ASCII
  letters and blanks, the patterns \<open>*\<close> and a literal name, and \<open>sort_by_field\<close> as a
  stable sort on the \<open>name\<close> entry.
\<close>

definition digit_value :: "char \<Rightarrow> nat option" where
  "digit_value c =
     (let n = (of_char c :: nat) in if 48 \<le> n \<and> n \<le> 57 then Some (n - 48) else None)"

fun numeral_value :: "nat \<Rightarrow> nat \<Rightarrow> string \<Rightarrow> nat option" where
  "numeral_value base acc [] = Some acc"
| "numeral_value base acc (c # cs) =
     (case digit_value c of
        None \<Rightarrow> None
      | Some d \<Rightarrow> if d < base then numeral_value base (acc * base + d) cs else None)"

definition parse_int :: "nat \<Rightarrow> string \<Rightarrow> int option" where
  "parse_int base s =
     (case s of
        [] \<Rightarrow> None
      | c # cs \<Rightarrow>
          if c = CHR ''-'' then (if cs = [] then None
                                 else map_option (\<lambda>n. - int n) (numeral_value base 0 cs))
          else if c = CHR ''+'' then (if cs = [] then None
                                      else map_option int (numeral_value base 0 cs))
          else map_option int (numeral_value base 0 s))"

definition parse_bool :: "string \<Rightarrow> bool option" where
  "parse_bool s =
     (if s \<in> set [''true'', ''1''] then Some True
      else if s \<in> set [''false'', ''0''] then Some False else None)"

definition ascii_lower :: "string \<Rightarrow> string" where
  "ascii_lower s =
     map (\<lambda>c. let n = (of_char c :: nat) in if 65 \<le> n \<and> n \<le> 90 then char_of (n + 32) else c) s"

definition strip_blanks :: "string \<Rightarrow> string" where
  "strip_blanks s =
     rev (dropWhile (\<lambda>c. c = CHR '' '') (rev (dropWhile (\<lambda>c. c = CHR '' '') s)))"

fun str_less :: "string \<Rightarrow> string \<Rightarrow> bool" where
  "str_less [] [] = False"
| "str_less [] (d # ds) = True"
| "str_less (c # cs) [] = False"
| "str_less (c # cs) (d # ds) =
     ((of_char c :: nat) < of_char d \<or> (c = d \<and> str_less cs ds))"

definition name_of :: "pydict \<Rightarrow> string" where
  "name_of d = (case map_of d ''name'' of Some (PStr n) \<Rightarrow> n | _ \<Rightarrow> [])"

text \<open>Insertion of a position into positions already in order; equal names keep their order.\<close>

fun insert_by_name :: "pydict list \<Rightarrow> nat \<Rightarrow> nat list \<Rightarrow> nat list" where
  "insert_by_name ds i [] = [i]"
| "insert_by_name ds i (j # js) =
     (if str_less (name_of (ds ! i)) (name_of (ds ! j)) then i # j # js
      else j # insert_by_name ds i js)"

definition sort_by_name :: "pydict list \<Rightarrow> nat list" where
  "sort_by_name ds = foldl (\<lambda>order i. insert_by_name ds i order) [] [0..<length ds]"

definition sample_platform :: platform where
  "sample_platform =
     \<lparr> os_environ = [(''PATH'', ''/usr/bin''), (''HOME'', ''/root'')],
       replace_gnu_args = (\<lambda>s env. s),
       to_bool = parse_bool,
       to_signum = parse_int 10,
       py_int = parse_int 10,
       py_int_base8 = parse_int 8,
       py_float = (\<lambda>s. map_option (\<lambda>i. Finite (of_int i)) (parse_int 10 s)),
       str_lower = ascii_lower,
       str_strip = strip_blanks,
       fnmatch = (\<lambda>name pattern. pattern = ''*'' \<or> name = pattern),
       sort_by_field = sort_by_name,
       RLIM_INFINITY = Some (- 1),
       papa = False,
       SIGTERM = 15,
       DEFAULT_ENDPOINT_DEALER = ''tcp://127.0.0.1:5555'',
       DEFAULT_ENDPOINT_SUB = ''tcp://127.0.0.1:5556'',
       DEFAULT_ENDPOINT_MULTICAST = ''udp://237.219.251.97:12027'',
       DEFAULT_ENDPOINT_STATS = ''tcp://127.0.0.1:5557'' \<rparr>"

text \<open>A configuration file, as parsed.\<close>

definition sample_config :: parsed where
  "sample_config =
     [(''circus'', [(''stats_endpoint'', ''tcp://127.0.0.1:9000'')]),
      (''watcher:a'', [(''cmd'', ''sleep''), (''priority'', ''1''), (''copy_path'', ''true'')]),
      (''watcher:b'', [(''cmd'', ''ls''), (''priority'', ''2''), (''rlimit_nofile'', ''-1''),
                       (''copy_env'', ''1'')]),
      (''socket:web'', [(''host'', ''localhost'')]),
      (''plugin:stats'', [(''use'', ''stats.Plugin'')])]"

text \<open>A file with one watcher and no \<open>[circus]\<close> section.\<close>

definition plain_config :: parsed where
  "plain_config = [(''watcher:w'', [(''cmd'', ''sleep'')])]"

text \<open>
  The same platform where \<open>resource.RLIM_INFINITY\<close> is \<open>2 ^ 63 - 1\<close>, the value of
  \<open>RLIM_INFINITY\<close> on macOS.
\<close>

definition sample_platform_macos :: platform where
  "sample_platform_macos = sample_platform \<lparr> RLIM_INFINITY := Some 9223372036854775807 \<rparr>"

subsection \<open>What the loops keep\<close>

text \<open>The first loop: every listed watcher is in the map, built from its section.\<close>

definition collected_ok ::
  "platform \<Rightarrow> parsed \<Rightarrow> pydict \<Rightarrow> pydict \<Rightarrow> collected \<Rightarrow> bool" where
  "collected_ok P cfg global_env local_env st \<longleftrightarrow>
     (\<forall>s \<in> set (watchers st). map_of (watchers_map st) s \<noteq> None)
     \<and> (\<forall>s w. map_of (watchers_map st) s = Some w \<longrightarrow>
           s \<in> set (sections cfg) \<and> startswith s ''watcher:''
           \<and> collect_watcher P cfg global_env local_env s = Inr w)"

text \<open>
  Two watcher dictionaries that agree on every key but \<open>env\<close>, and two maps of watchers
  with the same sections whose dictionaries agree in that way.
\<close>

definition same_but_env :: "pydict \<Rightarrow> pydict \<Rightarrow> bool" where
  "same_but_env w w' \<longleftrightarrow> (\<forall>k. k \<noteq> ''env'' \<longrightarrow> map_of w' k = map_of w k)"

definition env_related :: "(string \<times> pydict) list \<Rightarrow> (string \<times> pydict) list \<Rightarrow> bool" where
  "env_related wmap wmap' \<longleftrightarrow>
     (\<forall>s. case map_of wmap s of
            None \<Rightarrow> map_of wmap' s = None
          | Some w \<Rightarrow> (\<exists>w'. map_of wmap' s = Some w' \<and> same_but_env w w'))"

text \<open>
  \<open>w\<close> is what the reader makes of the watcher section \<open>s\<close> with the options \<open>its\<close>:
  the dictionary collected in the first loop, with its environment possibly updated
  from \<open>env:\<close> sections, after the options of the section have been stored in it.
\<close>

definition watcher_of_section ::
  "platform \<Rightarrow> parsed \<Rightarrow> pydict \<Rightarrow> pydict \<Rightarrow> string \<Rightarrow> (string \<times> string) list \<Rightarrow> pydict
     \<Rightarrow> bool" where
  "watcher_of_section P cfg global_env local_env s its w \<longleftrightarrow>
     map_of cfg s = Some its \<and> startswith s ''watcher:''
     \<and> (\<exists>w1 w2 e. collect_watcher P cfg global_env local_env s = Inr w1
           \<and> same_but_env w1 w2
           \<and> ((\<forall>s' \<in> set (sections cfg). \<not> startswith s' ''env:'') \<longrightarrow> w2 = w1)
           \<and> map_of w2 ''env'' = Some (PDict e)
           \<and> foldE (watcher_option P (dict_update global_env e)) w2 its = Inr w)"

text \<open>
  What storing one option \<open>opt\<close> of a watcher section does to the dictionary of the
  watcher: nothing, or it stores a value under \<open>opt\<close>, or it stores a value in one of the
  dictionaries held under a stream name, \<open>rlimits\<close> or \<open>hooks\<close>.
\<close>

definition option_effect :: "string \<Rightarrow> pydict \<Rightarrow> pydict \<Rightarrow> bool" where
  "option_effect opt w w' \<longleftrightarrow>
     w' = w
     \<or> (\<exists>v. w' = dict_set w opt v)
     \<or> (\<exists>key k v d. map_of w key = Some (PDict d)
           \<and> w' = dict_set w key (PDict (dict_set d k v))
           \<and> (startswith key ''stderr_stream'' \<or> startswith key ''stdout_stream''
                \<or> key = ''hooks''
                \<or> (key = ''rlimits'' \<and> startswith opt ''rlimit_'' \<and> k = drop 7 opt)))"

section \<open>Properties\<close>

subsection \<open>The configuration reader: basic facts\<close>

lemma thenE_Inl [simp]: "thenE (Inl e) f = Inl e"
  by (simp add: thenE_def)

lemma thenE_Inr [simp]: "thenE (Inr x) f = f x"
  by (simp add: thenE_def)

lemma thenE_eq_Inr: "thenE m f = Inr y \<longleftrightarrow> (\<exists>x. m = Inr x \<and> f x = Inr y)"
  by (cases m) simp_all

lemma thenE_InrE:
  assumes "thenE m f = Inr y"
  obtains x where "m = Inr x" and "f x = Inr y"
  using assms by (auto simp: thenE_eq_Inr)

lemma map_of_dict_set: "map_of (dict_set d k v) = (map_of d)(k \<mapsto> v)"
  by (simp add: dict_set_def update_conv')

lemma keys_dict_set:
  "map fst (dict_set d k v) = (if k \<in> set (map fst d) then map fst d else map fst d @ [k])"
  by (simp add: dict_set_def update_keys)

lemma dict_get_eq_Inr: "dict_get d k = Inr v \<longleftrightarrow> map_of d k = Some v"
  by (simp add: dict_get_def split: option.splits)

lemma set_option_result:
  assumes "set_main_option P cfg env config key dflt ty = Inr config'"
  obtains v where "dget P cfg env ''circus'' key dflt ty = Inr v"
    and "config' = dict_set config key v"
  using assms by (auto simp: set_main_option_def thenE_eq_Inr)

lemma set_umask_result:
  assumes "set_umask P cfg env config = Inr config'"
  shows "\<exists>v. config' = dict_set config ''umask'' v"
proof -
  from assms obtain c1 u where c1: "set_main_option P cfg env config ''umask'' PNone TStr = Inr c1"
    and u: "dict_get c1 ''umask'' = Inr u"
    and r: "(if truthy u then
         (case u of
            PStr s \<Rightarrow> (case py_int_base8 P s of
                         None \<Rightarrow> Inl ValueError
                       | Some i \<Rightarrow> Inr (dict_set c1 ''umask'' (PInt i)))
          | _ \<Rightarrow> Inl TypeError)
       else Inr c1) = Inr config'"
    by (auto simp: set_umask_def thenE_eq_Inr)
  from c1 obtain v where v: "c1 = dict_set config ''umask'' v"
    by (rule set_option_result)
  show ?thesis
  proof (cases "truthy u")
    case False
    with r v show ?thesis by auto
  next
    case True
    with r obtain i where "config' = dict_set c1 ''umask'' (PInt i)"
      by (auto split: pyval.splits option.splits)
    with v show ?thesis by (auto simp: dict_set_def)
  qed
qed

lemma fix_stats_result:
  assumes "fix_stats P config = Inr config'"
  shows "(map_of config ''stats_endpoint'' = Some PNone
          \<and> config' = dict_set config ''stats_endpoint'' (PStr (DEFAULT_ENDPOINT_STATS P)))
       \<or> (\<exists>e s. map_of config ''stats_endpoint'' = Some e \<and> e \<noteq> PNone
            \<and> map_of config ''statsd'' = Some s
            \<and> config' = (if truthy s then config else dict_set config ''statsd'' (PBool True)))"
  using assms
  by (auto simp: fix_stats_def thenE_eq_Inr dict_get_eq_Inr split: if_splits)


lemma main_options_result:
  assumes "main_options P cfg env = Inr config"
  shows "\<exists>cd se sd.
      dget P cfg env ''circus'' ''check_delay'' (PFloat (Finite 5)) TFloat = Inr cd
    \<and> dget P cfg env ''circus'' ''stats_endpoint'' PNone TStr = Inr se
    \<and> dget P cfg env ''circus'' ''statsd'' (PBool False) TBool = Inr sd
    \<and> map_of config ''check_delay'' = Some cd
    \<and> map_of config ''stats_endpoint''
         = Some (if se = PNone then PStr (DEFAULT_ENDPOINT_STATS P) else se)
    \<and> map_of config ''statsd''
         = Some (if se \<noteq> PNone \<and> \<not> truthy sd then PBool True else sd)
    \<and> map fst config =
        [''check_delay'', ''endpoint'', ''endpoint_owner'', ''pubsub_endpoint'',
         ''multicast_endpoint'', ''stats_endpoint'', ''statsd'', ''umask'', ''warmup_delay'',
         ''httpd'', ''httpd_host'', ''httpd_port'', ''debug'', ''debug_gc'', ''pidfile'',
         ''loglevel'', ''logoutput'', ''loggerconfig'', ''fqdn_prefix'', ''papa_endpoint'']"
proof -
  from assms obtain c1 c2 c3 c4 c5 c6 c7 c8 c9 d1 d2 d3 d4 d5 d6 d7 d8 d9 d10 d11 where
    s1: "set_main_option P cfg env [] ''check_delay'' (PFloat (Finite 5)) TFloat = Inr c1" and
    s2: "set_main_option P cfg env c1 ''endpoint'' (PStr (DEFAULT_ENDPOINT_DEALER P)) TStr = Inr c2" and
    s3: "set_main_option P cfg env c2 ''endpoint_owner'' PNone TStr = Inr c3" and
    s4: "set_main_option P cfg env c3 ''pubsub_endpoint'' (PStr (DEFAULT_ENDPOINT_SUB P)) TStr = Inr c4" and
    s5: "set_main_option P cfg env c4 ''multicast_endpoint'' (PStr (DEFAULT_ENDPOINT_MULTICAST P)) TStr
           = Inr c5" and
    s6: "set_main_option P cfg env c5 ''stats_endpoint'' PNone TStr = Inr c6" and
    s7: "set_main_option P cfg env c6 ''statsd'' (PBool False) TBool = Inr c7" and
    s8: "set_umask P cfg env c7 = Inr c8" and
    s9: "fix_stats P c8 = Inr c9" and
    t1: "set_main_option P cfg env c9 ''warmup_delay'' (PInt 0) TInt = Inr d1" and
    t2: "set_main_option P cfg env d1 ''httpd'' (PBool False) TBool = Inr d2" and
    t3: "set_main_option P cfg env d2 ''httpd_host'' (PStr ''localhost'') TStr = Inr d3" and
    t4: "set_main_option P cfg env d3 ''httpd_port'' (PInt 8080) TInt = Inr d4" and
    t5: "set_main_option P cfg env d4 ''debug'' (PBool False) TBool = Inr d5" and
    t6: "set_main_option P cfg env d5 ''debug_gc'' (PBool False) TBool = Inr d6" and
    t7: "set_main_option P cfg env d6 ''pidfile'' PNone TStr = Inr d7" and
    t8: "set_main_option P cfg env d7 ''loglevel'' PNone TStr = Inr d8" and
    t9: "set_main_option P cfg env d8 ''logoutput'' PNone TStr = Inr d9" and
    t10: "set_main_option P cfg env d9 ''loggerconfig'' PNone TStr = Inr d10" and
    t11: "set_main_option P cfg env d10 ''fqdn_prefix'' PNone TStr = Inr d11" and
    t12: "set_main_option P cfg env d11 ''papa_endpoint'' PNone TStr = Inr config"
    unfolding main_options_def by (elim thenE_InrE) (rule that; assumption)
  from s1 obtain cd where cd: "dget P cfg env ''circus'' ''check_delay'' (PFloat (Finite 5)) TFloat = Inr cd"
    and c1: "c1 = dict_set [] ''check_delay'' cd" by (rule set_option_result)
  from s2 obtain v2 where c2: "c2 = dict_set c1 ''endpoint'' v2" by (rule set_option_result)
  from s3 obtain v3 where c3: "c3 = dict_set c2 ''endpoint_owner'' v3" by (rule set_option_result)
  from s4 obtain v4 where c4: "c4 = dict_set c3 ''pubsub_endpoint'' v4" by (rule set_option_result)
  from s5 obtain v5 where c5: "c5 = dict_set c4 ''multicast_endpoint'' v5"
    by (rule set_option_result)
  from s6 obtain se where se: "dget P cfg env ''circus'' ''stats_endpoint'' PNone TStr = Inr se"
    and c6: "c6 = dict_set c5 ''stats_endpoint'' se" by (rule set_option_result)
  from s7 obtain sd where sd: "dget P cfg env ''circus'' ''statsd'' (PBool False) TBool = Inr sd"
    and c7: "c7 = dict_set c6 ''statsd'' sd" by (rule set_option_result)
  from s8 obtain v8 where c8: "c8 = dict_set c7 ''umask'' v8"
    using set_umask_result by blast
  have kc1: "map fst c1 =
        [''check_delay'']"
    by (simp add: c1 keys_dict_set)
  have kc2: "map fst c2 =
        [''check_delay'', ''endpoint'']"
    by (simp add: c2 keys_dict_set kc1)
  have kc3: "map fst c3 =
        [''check_delay'', ''endpoint'', ''endpoint_owner'']"
    by (simp add: c3 keys_dict_set kc2)
  have kc4: "map fst c4 =
        [''check_delay'', ''endpoint'', ''endpoint_owner'', ''pubsub_endpoint'']"
    by (simp add: c4 keys_dict_set kc3)
  have kc5: "map fst c5 =
        [''check_delay'', ''endpoint'', ''endpoint_owner'', ''pubsub_endpoint'', 
         ''multicast_endpoint'']"
    by (simp add: c5 keys_dict_set kc4)
  have kc6: "map fst c6 =
        [''check_delay'', ''endpoint'', ''endpoint_owner'', ''pubsub_endpoint'', 
         ''multicast_endpoint'', ''stats_endpoint'']"
    by (simp add: c6 keys_dict_set kc5)
  have kc7: "map fst c7 =
        [''check_delay'', ''endpoint'', ''endpoint_owner'', ''pubsub_endpoint'', 
         ''multicast_endpoint'', ''stats_endpoint'', ''statsd'']"
    by (simp add: c7 keys_dict_set kc6)
  have kc8: "map fst c8 =
        [''check_delay'', ''endpoint'', ''endpoint_owner'', ''pubsub_endpoint'', 
         ''multicast_endpoint'', ''stats_endpoint'', ''statsd'', ''umask'']"
    by (simp add: c8 keys_dict_set kc7)
  have m8: "map_of c8 ''check_delay'' = Some cd" "map_of c8 ''stats_endpoint'' = Some se"
    "map_of c8 ''statsd'' = Some sd"
    by (simp_all add: c1 c2 c3 c4 c5 c6 c7 c8 map_of_dict_set)
  have k9: "map fst c9 = map fst c8"
    and m9: "map_of c9 ''check_delay'' = Some cd"
      "map_of c9 ''stats_endpoint'' = Some (if se = PNone then PStr (DEFAULT_ENDPOINT_STATS P) else se)"
      "map_of c9 ''statsd'' = Some (if se \<noteq> PNone \<and> \<not> truthy sd then PBool True else sd)"
  proof -
    from fix_stats_result [OF s9] m8
    consider (dflt) "se = PNone"
        "c9 = dict_set c8 ''stats_endpoint'' (PStr (DEFAULT_ENDPOINT_STATS P))"
      | (keep) "se \<noteq> PNone" "truthy sd" "c9 = c8"
      | (force) "se \<noteq> PNone" "\<not> truthy sd" "c9 = dict_set c8 ''statsd'' (PBool True)"
      by (cases "truthy sd") auto
    then have "map fst c9 = map fst c8
      \<and> map_of c9 ''check_delay'' = Some cd
      \<and> map_of c9 ''stats_endpoint''
          = Some (if se = PNone then PStr (DEFAULT_ENDPOINT_STATS P) else se)
      \<and> map_of c9 ''statsd'' = Some (if se \<noteq> PNone \<and> \<not> truthy sd then PBool True else sd)"
    proof cases
      case dflt
      then show ?thesis by (simp add: keys_dict_set map_of_dict_set kc8 m8)
    next
      case keep
      then show ?thesis by (simp add: m8)
    next
      case force
      then show ?thesis by (simp add: keys_dict_set map_of_dict_set kc8 m8)
    qed
    then show "map fst c9 = map fst c8" "map_of c9 ''check_delay'' = Some cd"
      "map_of c9 ''stats_endpoint'' = Some (if se = PNone then PStr (DEFAULT_ENDPOINT_STATS P) else se)"
      "map_of c9 ''statsd'' = Some (if se \<noteq> PNone \<and> \<not> truthy sd then PBool True else sd)"
      by simp_all
  qed
  from t1 obtain w1 where e1: "d1 = dict_set c9 ''warmup_delay'' w1" by (rule set_option_result)
  from t2 obtain w2 where e2: "d2 = dict_set d1 ''httpd'' w2" by (rule set_option_result)
  from t3 obtain w3 where e3: "d3 = dict_set d2 ''httpd_host'' w3" by (rule set_option_result)
  from t4 obtain w4 where e4: "d4 = dict_set d3 ''httpd_port'' w4" by (rule set_option_result)
  from t5 obtain w5 where e5: "d5 = dict_set d4 ''debug'' w5" by (rule set_option_result)
  from t6 obtain w6 where e6: "d6 = dict_set d5 ''debug_gc'' w6" by (rule set_option_result)
  from t7 obtain w7 where e7: "d7 = dict_set d6 ''pidfile'' w7" by (rule set_option_result)
  from t8 obtain w8 where e8: "d8 = dict_set d7 ''loglevel'' w8" by (rule set_option_result)
  from t9 obtain w9 where e9: "d9 = dict_set d8 ''logoutput'' w9" by (rule set_option_result)
  from t10 obtain w10 where e10: "d10 = dict_set d9 ''loggerconfig'' w10"
    by (rule set_option_result)
  from t11 obtain w11 where e11: "d11 = dict_set d10 ''fqdn_prefix'' w11"
    by (rule set_option_result)
  from t12 obtain w12 where e12: "config = dict_set d11 ''papa_endpoint'' w12"
    by (rule set_option_result)
  note cfg = e12 e11 e10 e9 e8 e7 e6 e5 e4 e3 e2 e1
  have kc9: "map fst c9 =
        [''check_delay'', ''endpoint'', ''endpoint_owner'', ''pubsub_endpoint'', 
         ''multicast_endpoint'', ''stats_endpoint'', ''statsd'', ''umask'']"
    by (simp add: k9 kc8)
  have kd1: "map fst d1 =
        [''check_delay'', ''endpoint'', ''endpoint_owner'', ''pubsub_endpoint'', 
         ''multicast_endpoint'', ''stats_endpoint'', ''statsd'', ''umask'', 
         ''warmup_delay'']"
    by (simp add: e1 keys_dict_set kc9)
  have kd2: "map fst d2 =
        [''check_delay'', ''endpoint'', ''endpoint_owner'', ''pubsub_endpoint'', 
         ''multicast_endpoint'', ''stats_endpoint'', ''statsd'', ''umask'', 
         ''warmup_delay'', ''httpd'']"
    by (simp add: e2 keys_dict_set kd1)
  have kd3: "map fst d3 =
        [''check_delay'', ''endpoint'', ''endpoint_owner'', ''pubsub_endpoint'', 
         ''multicast_endpoint'', ''stats_endpoint'', ''statsd'', ''umask'', 
         ''warmup_delay'', ''httpd'', ''httpd_host'']"
    by (simp add: e3 keys_dict_set kd2)
  have kd4: "map fst d4 =
        [''check_delay'', ''endpoint'', ''endpoint_owner'', ''pubsub_endpoint'', 
         ''multicast_endpoint'', ''stats_endpoint'', ''statsd'', ''umask'', 
         ''warmup_delay'', ''httpd'', ''httpd_host'', ''httpd_port'']"
    by (simp add: e4 keys_dict_set kd3)
  have kd5: "map fst d5 =
        [''check_delay'', ''endpoint'', ''endpoint_owner'', ''pubsub_endpoint'', 
         ''multicast_endpoint'', ''stats_endpoint'', ''statsd'', ''umask'', 
         ''warmup_delay'', ''httpd'', ''httpd_host'', ''httpd_port'', ''debug'']"
    by (simp add: e5 keys_dict_set kd4)
  have kd6: "map fst d6 =
        [''check_delay'', ''endpoint'', ''endpoint_owner'', ''pubsub_endpoint'', 
         ''multicast_endpoint'', ''stats_endpoint'', ''statsd'', ''umask'', 
         ''warmup_delay'', ''httpd'', ''httpd_host'', ''httpd_port'', ''debug'', 
         ''debug_gc'']"
    by (simp add: e6 keys_dict_set kd5)
  have kd7: "map fst d7 =
        [''check_delay'', ''endpoint'', ''endpoint_owner'', ''pubsub_endpoint'', 
         ''multicast_endpoint'', ''stats_endpoint'', ''statsd'', ''umask'', 
         ''warmup_delay'', ''httpd'', ''httpd_host'', ''httpd_port'', ''debug'', 
         ''debug_gc'', ''pidfile'']"
    by (simp add: e7 keys_dict_set kd6)
  have kd8: "map fst d8 =
        [''check_delay'', ''endpoint'', ''endpoint_owner'', ''pubsub_endpoint'', 
         ''multicast_endpoint'', ''stats_endpoint'', ''statsd'', ''umask'', 
         ''warmup_delay'', ''httpd'', ''httpd_host'', ''httpd_port'', ''debug'', 
         ''debug_gc'', ''pidfile'', ''loglevel'']"
    by (simp add: e8 keys_dict_set kd7)
  have kd9: "map fst d9 =
        [''check_delay'', ''endpoint'', ''endpoint_owner'', ''pubsub_endpoint'', 
         ''multicast_endpoint'', ''stats_endpoint'', ''statsd'', ''umask'', 
         ''warmup_delay'', ''httpd'', ''httpd_host'', ''httpd_port'', ''debug'', 
         ''debug_gc'', ''pidfile'', ''loglevel'', ''logoutput'']"
    by (simp add: e9 keys_dict_set kd8)
  have kd10: "map fst d10 =
        [''check_delay'', ''endpoint'', ''endpoint_owner'', ''pubsub_endpoint'', 
         ''multicast_endpoint'', ''stats_endpoint'', ''statsd'', ''umask'', 
         ''warmup_delay'', ''httpd'', ''httpd_host'', ''httpd_port'', ''debug'', 
         ''debug_gc'', ''pidfile'', ''loglevel'', ''logoutput'', 
         ''loggerconfig'']"
    by (simp add: e10 keys_dict_set kd9)
  have kd11: "map fst d11 =
        [''check_delay'', ''endpoint'', ''endpoint_owner'', ''pubsub_endpoint'', 
         ''multicast_endpoint'', ''stats_endpoint'', ''statsd'', ''umask'', 
         ''warmup_delay'', ''httpd'', ''httpd_host'', ''httpd_port'', ''debug'', 
         ''debug_gc'', ''pidfile'', ''loglevel'', ''logoutput'', 
         ''loggerconfig'', ''fqdn_prefix'']"
    by (simp add: e11 keys_dict_set kd10)
  have "map fst config =
        [''check_delay'', ''endpoint'', ''endpoint_owner'', ''pubsub_endpoint'', 
         ''multicast_endpoint'', ''stats_endpoint'', ''statsd'', ''umask'', 
         ''warmup_delay'', ''httpd'', ''httpd_host'', ''httpd_port'', ''debug'', 
         ''debug_gc'', ''pidfile'', ''loglevel'', ''logoutput'', 
         ''loggerconfig'', ''fqdn_prefix'', ''papa_endpoint'']"
    by (simp add: e12 keys_dict_set kd11)
  moreover have "map_of config ''check_delay'' = Some cd"
    "map_of config ''stats_endpoint'' = Some (if se = PNone then PStr (DEFAULT_ENDPOINT_STATS P) else se)"
    "map_of config ''statsd'' = Some (if se \<noteq> PNone \<and> \<not> truthy sd then PBool True else sd)"
    unfolding cfg by (simp_all add: map_of_dict_set m9)
  ultimately show ?thesis
    using cd se sd by - (rule exI [of _ cd], rule exI [of _ se], rule exI [of _ sd], simp)
qed

lemma get_config_result:
  assumes "get_config P cfg = Inr snap"
  obtains local_env global_env config st ws0 wmap2 wmap3 ws where
    "read_env P cfg = Inr (local_env, global_env)"
    "main_options P cfg global_env = Inr config"
    "foldE (collect_section P cfg global_env local_env)
       \<lparr>watchers = [], watchers_map = [], plugins = [], sockets = []\<rparr> (sections cfg) = Inr st"
    "mapE (the_watcher (watchers_map st)) (watchers st) = Inr ws0"
    "foldE (env_section P cfg global_env (reorder (watchers st) (sort_by_field P ws0)))
       (watchers_map st) (sections cfg) = Inr wmap2"
    "foldE (watcher_section P cfg global_env) wmap2 (sections cfg) = Inr wmap3"
    "mapE (the_watcher wmap3) (reorder (watchers st) (sort_by_field P ws0)) = Inr ws"
    "snap = dict_set (dict_set (dict_set config ''watchers'' (PList (map PDict ws)))
              ''plugins'' (PList (map PDict (reorder (plugins st) (sort_by_field P (plugins st))))))
              ''sockets'' (PList (map PDict (reorder (sockets st) (sort_by_field P (sockets st)))))"
  using assms unfolding get_config_def Let_def
  by (auto simp: thenE_eq_Inr)

lemma list_all_is_dict: "list_all is_dict (map PDict ds)"
  by (induction ds) simp_all

lemma snapshot_keys:
  assumes "get_config P cfg = Inr snap"
  shows "map fst snap =
      [''check_delay'', ''endpoint'', ''endpoint_owner'', ''pubsub_endpoint'',
       ''multicast_endpoint'', ''stats_endpoint'', ''statsd'', ''umask'', ''warmup_delay'',
       ''httpd'', ''httpd_host'', ''httpd_port'', ''debug'', ''debug_gc'', ''pidfile'',
       ''loglevel'', ''logoutput'', ''loggerconfig'', ''fqdn_prefix'', ''papa_endpoint'',
       ''watchers'', ''plugins'', ''sockets'']"
proof -
  from assms obtain global_env config a b c where
    m: "main_options P cfg global_env = Inr config" and
    s: "snap = dict_set (dict_set (dict_set config ''watchers'' a) ''plugins'' b) ''sockets'' c"
    by (rule get_config_result)
  from main_options_result [OF m] have k: "map fst config =
        [''check_delay'', ''endpoint'', ''endpoint_owner'', ''pubsub_endpoint'',
         ''multicast_endpoint'', ''stats_endpoint'', ''statsd'', ''umask'', ''warmup_delay'',
         ''httpd'', ''httpd_host'', ''httpd_port'', ''debug'', ''debug_gc'', ''pidfile'',
         ''loglevel'', ''logoutput'', ''loggerconfig'', ''fqdn_prefix'', ''papa_endpoint'']"
    by blast
  have k1: "map fst (dict_set config ''watchers'' a) = map fst config @ [''watchers'']"
    by (simp add: keys_dict_set k del: set_map)
  have k2: "map fst (dict_set (dict_set config ''watchers'' a) ''plugins'' b)
      = map fst config @ [''watchers'', ''plugins'']"
    by (simp add: keys_dict_set [of "dict_set config ''watchers'' a"] k1 k del: set_map)
  show ?thesis
    unfolding s
    by (simp add: keys_dict_set [of "dict_set (dict_set config ''watchers'' a) ''plugins'' b"]
        k2 k del: set_map)
qed

lemma snapshot_lists:
  assumes "get_config P cfg = Inr snap"
  shows "\<exists>ws ps ss. map_of snap ''watchers'' = Some (PList (map PDict ws))
      \<and> map_of snap ''plugins'' = Some (PList (map PDict ps))
      \<and> map_of snap ''sockets'' = Some (PList (map PDict ss))"
proof -
  from assms obtain config ws ps ss where
    "snap = dict_set (dict_set (dict_set config ''watchers'' (PList (map PDict ws)))
              ''plugins'' (PList (map PDict ps))) ''sockets'' (PList (map PDict ss))"
    by (rule get_config_result)
  then show ?thesis by (auto simp: map_of_dict_set)
qed

lemma foldE_append: "foldE f s (xs @ ys) = thenE (foldE f s xs) (\<lambda>s'. foldE f s' ys)"
  by (induction xs arbitrary: s) (auto simp: thenE_def split: sum.splits)

lemma foldE_invariant:
  assumes "foldE f s xs = Inr s'" and "I s"
    and "\<And>a x b. x \<in> set xs \<Longrightarrow> I a \<Longrightarrow> f a x = Inr b \<Longrightarrow> I b"
  shows "I s'"
  using assms
proof (induction xs arbitrary: s)
  case Nil
  then show ?case by simp
next
  case (Cons x xs)
  from Cons.prems(1) obtain m where m: "f s x = Inr m" and r: "foldE f m xs = Inr s'"
    by (auto simp: thenE_eq_Inr)
  have "I m" using Cons.prems(3) [of x s m] Cons.prems(2) m by simp
  then show ?case
  proof (rule Cons.IH [OF r])
    fix a y b
    assume "y \<in> set xs" "I a" "f a y = Inr b"
    then show "I b" using Cons.prems(3) [of y a b] by simp
  qed
qed

lemma mapE_elements:
  assumes "mapE f xs = Inr ys" and "y \<in> set ys"
  shows "\<exists>x \<in> set xs. f x = Inr y"
  using assms
proof (induction xs arbitrary: ys)
  case Nil
  then show ?case by simp
next
  case (Cons x xs)
  from Cons.prems(1) obtain z zs where "f x = Inr z" "mapE f xs = Inr zs" "ys = z # zs"
    by (auto simp: thenE_eq_Inr)
  with Cons show ?case by auto
qed

lemma mapE_length: "mapE f xs = Inr ys \<Longrightarrow> length ys = length xs"
  by (induction xs arbitrary: ys) (auto simp: thenE_eq_Inr)

lemma mapE_nth:
  "mapE f xs = Inr ys \<Longrightarrow> i < length xs \<Longrightarrow> f (xs ! i) = Inr (ys ! i)"
proof (induction xs arbitrary: ys i)
  case Nil
  then show ?case by simp
next
  case (Cons x xs)
  from Cons.prems(1) obtain z zs where "f x = Inr z" "mapE f xs = Inr zs" "ys = z # zs"
    by (auto simp: thenE_eq_Inr)
  with Cons show ?case by (cases i) auto
qed

lemma set_reorder: "set (reorder xs order) \<subseteq> set xs"
  by (auto simp: reorder_def)

lemma the_watcher_eq_Inr: "the_watcher wmap s = Inr w \<longleftrightarrow> map_of wmap s = Some w"
  by (simp add: the_watcher_def split: option.splits)

lemma cfg_items_raw: "cfg_items P cfg env s True = Inr its \<longleftrightarrow> map_of cfg s = Some its"
  by (simp add: cfg_items_def split: option.splits)

lemma collect_section_ok:
  assumes "collect_section P cfg global_env local_env st s = Inr st'"
    and "s \<in> set (sections cfg)"
    and "collected_ok P cfg global_env local_env st"
  shows "collected_ok P cfg global_env local_env st'"
proof -
  from assms(1) consider (skip) "watchers st' = watchers st" "watchers_map st' = watchers_map st"
    | (add) w where "startswith s ''watcher:''"
        "collect_watcher P cfg global_env local_env s = Inr w"
        "watchers st' = watchers st @ [s]"
        "watchers_map st' = AList.update s w (watchers_map st)"
    unfolding collect_section_def Let_def
    by (fastforce simp: thenE_eq_Inr split: if_splits)
  then show ?thesis
  proof cases
    case skip
    with assms(3) show ?thesis by (simp add: collected_ok_def)
  next
    case add
    with assms(2,3) show ?thesis
      by (auto simp: collected_ok_def update_conv')
  qed
qed

lemma first_loop_ok:
  assumes "foldE (collect_section P cfg global_env local_env)
       \<lparr>watchers = [], watchers_map = [], plugins = [], sockets = []\<rparr> (sections cfg) = Inr st"
  shows "collected_ok P cfg global_env local_env st"
proof (rule foldE_invariant [OF assms])
  show "collected_ok P cfg global_env local_env
          \<lparr>watchers = [], watchers_map = [], plugins = [], sockets = []\<rparr>"
    by (simp add: collected_ok_def)
next
  fix a x b
  assume "x \<in> set (sections cfg)" "collected_ok P cfg global_env local_env a"
    "collect_section P cfg global_env local_env a x = Inr b"
  then show "collected_ok P cfg global_env local_env b"
    using collect_section_ok by blast
qed

lemma case_PDict_eq_Inr:
  "(case e of PDict d \<Rightarrow> f d | _ \<Rightarrow> Inl err) = Inr r \<longleftrightarrow> (\<exists>d. e = PDict d \<and> f d = Inr r)"
  by (cases e) auto

lemma case_PStr_eq_Inr:
  "(case e of PStr d \<Rightarrow> f d | _ \<Rightarrow> Inl err) = Inr r \<longleftrightarrow> (\<exists>d. e = PStr d \<and> f d = Inr r)"
  by (cases e) auto

lemma same_but_env_refl: "same_but_env w w"
  by (simp add: same_but_env_def)

lemma same_but_env_trans: "same_but_env a b \<Longrightarrow> same_but_env b c \<Longrightarrow> same_but_env a c"
  by (simp add: same_but_env_def)

lemma env_related_refl: "env_related wmap wmap"
  by (simp add: env_related_def same_but_env_refl split: option.splits)

lemma env_related_trans:
  assumes "env_related a b" and "env_related b c"
  shows "env_related a c"
  unfolding env_related_def
proof
  fix s
  show "case map_of a s of None \<Rightarrow> map_of c s = None
        | Some w \<Rightarrow> \<exists>w'. map_of c s = Some w' \<and> same_but_env w w'"
    using assms [unfolded env_related_def, THEN spec, of s]
    by (auto split: option.splits intro: same_but_env_trans)
qed

lemma update_env_related:
  assumes "update_env env_items wmap s = Inr wmap'"
  shows "env_related wmap wmap'"
proof -
  from assms obtain watcher env where
    w: "map_of wmap s = Some watcher" and
    r: "wmap' = AList.update s (dict_set watcher ''env'' (PDict (dict_update env env_items))) wmap"
    by (auto simp: update_env_def thenE_eq_Inr the_watcher_eq_Inr case_PDict_eq_Inr)
  show ?thesis
    unfolding env_related_def r
    using w by (auto simp: update_conv' same_but_env_def map_of_dict_set split: option.splits)
qed

lemma env_section_related:
  assumes "env_section P cfg global_env watcher_list wmap section = Inr wmap'"
  shows "env_related wmap wmap'"
proof (cases "startswith section ''env:''")
  case False
  with assms show ?thesis by (simp add: env_section_def env_related_refl)
next
  case True
  with assms obtain pats env_items where
    f: "foldE (\<lambda>wmap pattern.
                 thenE (filterE (name_matches P wmap pattern) watcher_list) (\<lambda>match.
                 foldE (update_env env_items) wmap match)) wmap pats = Inr wmap'"
    by (auto simp: env_section_def thenE_eq_Inr Let_def)
  show ?thesis
  proof (rule foldE_invariant [OF f, where I = "env_related wmap"])
    show "env_related wmap wmap" by (rule env_related_refl)
  next
    fix a x b
    assume a: "env_related wmap a"
      and s: "thenE (filterE (name_matches P a x) watcher_list)
                (\<lambda>match. foldE (update_env env_items) a match) = Inr b"
    from s obtain match where m: "foldE (update_env env_items) a match = Inr b"
      by (auto simp: thenE_eq_Inr)
    have "env_related a b"
    proof (rule foldE_invariant [OF m, where I = "env_related a"])
      show "env_related a a" by (rule env_related_refl)
    next
      fix c y d
      assume "env_related a c" "update_env env_items c y = Inr d"
      then show "env_related a d"
        using update_env_related env_related_trans by blast
    qed
    with a show "env_related wmap b" by (rule env_related_trans)
  qed
qed

lemma env_loop_related:
  assumes "foldE (env_section P cfg global_env watcher_list) wmap secs = Inr wmap'"
  shows "env_related wmap wmap'"
proof (rule foldE_invariant [OF assms, where I = "env_related wmap"])
  show "env_related wmap wmap" by (rule env_related_refl)
next
  fix a x b
  assume "env_related wmap a" "env_section P cfg global_env watcher_list a x = Inr b"
  then show "env_related wmap b"
    using env_section_related env_related_trans by blast
qed

lemma env_loop_without_env_sections:
  assumes "foldE (env_section P cfg global_env watcher_list) wmap secs = Inr wmap'"
    and "\<forall>s \<in> set secs. \<not> startswith s ''env:''"
  shows "wmap' = wmap"
proof (rule foldE_invariant [OF assms(1), where I = "\<lambda>m. m = wmap"])
  show "wmap = wmap" by simp
next
  fix a x b
  assume "x \<in> set secs" "a = wmap" "env_section P cfg global_env watcher_list a x = Inr b"
  with assms(2) show "b = wmap" by (simp add: env_section_def)
qed

text \<open>The second loop.\<close>

lemma watcher_section_other:
  assumes "watcher_section P cfg global_env wmap section = Inr wmap'" and "s \<noteq> section"
  shows "map_of wmap' s = map_of wmap s"
  using assms
  by (auto simp: watcher_section_def thenE_eq_Inr update_conv' case_PDict_eq_Inr Let_def
      split: if_splits)

lemma second_loop_other:
  assumes "foldE (watcher_section P cfg global_env) wmap secs = Inr wmap'" and "s \<notin> set secs"
  shows "map_of wmap' s = map_of wmap s"
proof (rule foldE_invariant [OF assms(1), where I = "\<lambda>m. map_of m s = map_of wmap s"])
  show "map_of wmap s = map_of wmap s" by simp
next
  fix a x b
  assume "x \<in> set secs" "map_of a s = map_of wmap s"
    "watcher_section P cfg global_env a x = Inr b"
  with assms(2) show "map_of b s = map_of wmap s"
    using watcher_section_other [of P cfg global_env a x b s] by auto
qed

lemma watcher_section_self:
  assumes "watcher_section P cfg global_env wmap section = Inr wmap'"
    and "startswith section ''watcher:''"
  shows "\<exists>w e its w'. map_of wmap section = Some w \<and> map_of w ''env'' = Some (PDict e)
      \<and> map_of cfg section = Some its
      \<and> foldE (watcher_option P (dict_update global_env e)) w its = Inr w'
      \<and> map_of wmap' section = Some w'"
  using assms
  by (auto simp: watcher_section_def thenE_eq_Inr update_conv' the_watcher_eq_Inr
      dict_get_eq_Inr cfg_items_raw Let_def case_PDict_eq_Inr)

lemma second_loop_self:
  assumes "foldE (watcher_section P cfg global_env) wmap secs = Inr wmap'"
    and "distinct secs" and "s \<in> set secs" and "startswith s ''watcher:''"
  shows "\<exists>w e its w'. map_of wmap s = Some w \<and> map_of w ''env'' = Some (PDict e)
      \<and> map_of cfg s = Some its
      \<and> foldE (watcher_option P (dict_update global_env e)) w its = Inr w'
      \<and> map_of wmap' s = Some w'"
  using assms
proof (induction secs arbitrary: wmap)
  case Nil
  then show ?case by simp
next
  case (Cons x xs)
  from Cons.prems(1) obtain m where m: "watcher_section P cfg global_env wmap x = Inr m"
    and r: "foldE (watcher_section P cfg global_env) m xs = Inr wmap'"
    by (auto simp: thenE_eq_Inr)
  show ?case
  proof (cases "s = x")
    case True
    with Cons.prems(2) have "s \<notin> set xs" by simp
    then have "map_of wmap' s = map_of m s" using r by (rule second_loop_other [rotated])
    with watcher_section_self [OF m] True Cons.prems(4) show ?thesis by auto
  next
    case False
    with Cons.prems have "s \<in> set xs" "distinct xs" by auto
    from Cons.IH [OF r this(2) this(1) Cons.prems(4)]
    show ?thesis using watcher_section_other [OF m False] by simp
  qed
qed

lemma snapshot_watchers:
  assumes g: "get_config P cfg = Inr snap" and d: "distinct (sections cfg)"
  obtains local_env global_env config st ws0 ws where
    "read_env P cfg = Inr (local_env, global_env)"
    "main_options P cfg global_env = Inr config"
    "\<forall>k. k \<notin> {''watchers'', ''plugins'', ''sockets''} \<longrightarrow> map_of snap k = map_of config k"
    "collected_ok P cfg global_env local_env st"
    "mapE (the_watcher (watchers_map st)) (watchers st) = Inr ws0"
    "collected_watchers P cfg = Inr (watchers st, ws0)"
    "listed_sections P cfg = Inr (reorder (watchers st) (sort_by_field P ws0))"
    "map_of snap ''watchers'' = Some (PList (map PDict ws))"
    "list_all2 (\<lambda>s w. \<exists>its. watcher_of_section P cfg global_env local_env s its w)
       (reorder (watchers st) (sort_by_field P ws0)) ws"
proof -
  from g obtain local_env global_env config st ws0 wmap2 wmap3 ws where
    re: "read_env P cfg = Inr (local_env, global_env)" and
    mo: "main_options P cfg global_env = Inr config" and
    l1: "foldE (collect_section P cfg global_env local_env)
       \<lparr>watchers = [], watchers_map = [], plugins = [], sockets = []\<rparr> (sections cfg) = Inr st" and
    m0: "mapE (the_watcher (watchers_map st)) (watchers st) = Inr ws0" and
    l2: "foldE (env_section P cfg global_env (reorder (watchers st) (sort_by_field P ws0)))
       (watchers_map st) (sections cfg) = Inr wmap2" and
    l3: "foldE (watcher_section P cfg global_env) wmap2 (sections cfg) = Inr wmap3" and
    m3: "mapE (the_watcher wmap3) (reorder (watchers st) (sort_by_field P ws0)) = Inr ws" and
    sn: "snap = dict_set (dict_set (dict_set config ''watchers'' (PList (map PDict ws)))
              ''plugins'' (PList (map PDict (reorder (plugins st) (sort_by_field P (plugins st))))))
              ''sockets'' (PList (map PDict (reorder (sockets st) (sort_by_field P (sockets st)))))"
    by (rule get_config_result)
  let ?refs = "reorder (watchers st) (sort_by_field P ws0)"
  have ok: "collected_ok P cfg global_env local_env st"
    using l1 by (rule first_loop_ok)
  have rel: "env_related (watchers_map st) wmap2"
    using l2 by (rule env_loop_related)
  have one: "\<exists>its. watcher_of_section P cfg global_env local_env s its w"
    if s: "s \<in> set ?refs" and w: "the_watcher wmap3 s = Inr w" for s w
  proof -
    from s have sw0: "s \<in> set (watchers st)"
      by (auto simp: reorder_def)
    from ok have a1: "\<forall>s \<in> set (watchers st). map_of (watchers_map st) s \<noteq> None"
      and a2: "\<forall>s w. map_of (watchers_map st) s = Some w \<longrightarrow>
           s \<in> set (sections cfg) \<and> startswith s ''watcher:''
           \<and> collect_watcher P cfg global_env local_env s = Inr w"
      by (simp_all add: collected_ok_def)
    from a1 [THEN bspec, OF sw0] obtain w1 where w1: "map_of (watchers_map st) s = Some w1"
      by (cases "map_of (watchers_map st) s") simp_all
    from a2 [THEN spec, THEN spec, THEN mp, OF w1]
    have sec: "s \<in> set (sections cfg)" and sw: "startswith s ''watcher:''"
      and cw: "collect_watcher P cfg global_env local_env s = Inr w1"
      by simp_all
    from second_loop_self [OF l3 d sec sw] obtain w2 e its w' where
      w2: "map_of wmap2 s = Some w2" and e: "map_of w2 ''env'' = Some (PDict e)" and
      its: "map_of cfg s = Some its" and
      f: "foldE (watcher_option P (dict_update global_env e)) w2 its = Inr w'" and
      w': "map_of wmap3 s = Some w'"
      by (elim exE conjE) (rule that; assumption)
    from w w' have ww: "w' = w" by (simp add: the_watcher_eq_Inr)
    from rel [unfolded env_related_def, THEN spec, of s] w1 w2 have sbe: "same_but_env w1 w2"
      by simp
    have noenv: "(\<forall>s' \<in> set (sections cfg). \<not> startswith s' ''env:'') \<longrightarrow> w2 = w1"
    proof
      assume "\<forall>s' \<in> set (sections cfg). \<not> startswith s' ''env:''"
      then have "wmap2 = watchers_map st"
        by (rule env_loop_without_env_sections [OF l2])
      with w1 w2 show "w2 = w1" by simp
    qed
    have "watcher_of_section P cfg global_env local_env s its w"
      unfolding watcher_of_section_def
      using its sw cw sbe noenv e f ww
      by - (intro conjI, simp, simp, rule exI [of _ w1], rule exI [of _ w2], rule exI [of _ e],
            simp)
    then show ?thesis ..
  qed
  have la: "list_all2 (\<lambda>s w. \<exists>its. watcher_of_section P cfg global_env local_env s its w) ?refs ws"
    unfolding list_all2_conv_all_nth
  proof (intro conjI allI impI)
    show "length ?refs = length ws" using mapE_length [OF m3] by simp
  next
    fix i assume i: "i < length ?refs"
    then have "the_watcher wmap3 (?refs ! i) = Inr (ws ! i)"
      using mapE_nth [OF m3] by simp
    moreover have "?refs ! i \<in> set ?refs" using i by simp
    ultimately show "\<exists>its. watcher_of_section P cfg global_env local_env (?refs ! i) its (ws ! i)"
      by (rule one [rotated])
  qed
  have mw: "map_of snap ''watchers'' = Some (PList (map PDict ws))"
    unfolding sn by (simp add: map_of_dict_set)
  have fr: "\<forall>k. k \<notin> {''watchers'', ''plugins'', ''sockets''} \<longrightarrow> map_of snap k = map_of config k"
    unfolding sn by (simp add: map_of_dict_set)
  have cw: "collected_watchers P cfg = Inr (watchers st, ws0)"
    unfolding collected_watchers_def using re l1 m0 by simp
  have ls: "listed_sections P cfg = Inr ?refs"
    unfolding listed_sections_def using re l1 m0 by simp
  show ?thesis
    using re mo fr ok m0 cw ls mw la by (rule that)
qed

lemma split_first_single:
  "split_first [c] seen s = Some (a, b) \<Longrightarrow> \<exists>t. a = rev seen @ t \<and> c \<notin> set t \<and> s = t @ c # b"
proof (induction s arbitrary: seen)
  case Nil
  then show ?case by simp
next
  case (Cons x xs)
  show ?case
  proof (cases "x = c")
    case True
    with Cons.prems show ?thesis by (simp add: startswith_def)
  next
    case False
    with Cons.prems have "split_first [c] (x # seen) xs = Some (a, b)"
      by (simp add: startswith_def)
    from Cons.IH [OF this] obtain t where
      "a = rev (x # seen) @ t" "c \<notin> set t" "xs = t @ c # b" by (elim exE conjE)
    with False have "a = rev seen @ (x # t) \<and> c \<notin> set (x # t) \<and> x # xs = (x # t) @ c # b"
      by simp
    then show ?thesis by (rule exI)
  qed
qed

lemma startswith_before_separator:
  assumes "startswith (t @ c # b) p" and "c \<notin> set p"
  shows "startswith t p"
proof (cases "length p \<le> length t")
  case True
  with assms(1) show ?thesis by (simp add: startswith_def)
next
  case False
  with assms(1) have "p = t @ take (length p - length t) (c # b)"
    by (simp add: startswith_def)
  moreover from False obtain n where "length p - length t = Suc n"
    by (cases "length p - length t") simp_all
  ultimately have "p = t @ c # take n b" by simp
  then have "c \<in> set p" by simp
  with assms(2) show ?thesis by simp
qed

lemma str_split1_dot_prefix:
  assumes "str_split1 opt ''.'' = [a, b]" and "startswith opt p" and "CHR ''.'' \<notin> set p"
  shows "startswith a p"
proof -
  from assms(1) have "split_first ''.'' [] opt = Some (a, b)"
    by (simp add: str_split1_def split: option.splits prod.splits)
  from split_first_single [OF this] obtain t where
    t: "a = rev [] @ t" "opt = t @ CHR ''.'' # b" by (elim exE conjE)
  from assms(2) t(2) have "startswith (t @ CHR ''.'' # b) p" by simp
  then have "startswith t p" using assms(3) by (rule startswith_before_separator)
  with t(1) show ?thesis by simp
qed

lemma set_converted_eq_Inr:
  "set_converted P w key val dflt ty = Inr w' \<longleftrightarrow>
     (\<exists>v. dget_static P (Some val) dflt ty = Inr v \<and> w' = dict_set w key v)"
  by (auto simp: set_converted_def thenE_eq_Inr)

lemma set_nested_eq_Inr:
  "set_nested w key k v = Inr w' \<longleftrightarrow>
     (\<exists>d. map_of w key = Some (PDict d) \<and> w' = dict_set w key (PDict (dict_set d k v)))"
  by (auto simp: set_nested_def thenE_eq_Inr dict_get_eq_Inr case_PDict_eq_Inr)

lemma option_effect_same: "option_effect opt w w"
  by (simp add: option_effect_def)

lemma option_effect_stored: "option_effect opt w (dict_set w opt v)"
  unfolding option_effect_def by (intro disjI2 disjI1 exI [of _ v]) simp

lemma option_effect_converted:
  "set_converted P w opt val dflt ty = Inr w' \<Longrightarrow> option_effect opt w w'"
  unfolding set_converted_eq_Inr by (elim exE conjE) (simp add: option_effect_stored)

lemma option_effect_nested:
  assumes "set_nested w key k v = Inr w'"
    and "startswith key ''stderr_stream'' \<or> startswith key ''stdout_stream''
         \<or> key = ''hooks''
         \<or> (key = ''rlimits'' \<and> startswith opt ''rlimit_'' \<and> k = drop 7 opt)"
  shows "option_effect opt w w'"
proof -
  from assms(1) obtain d where "map_of w key = Some (PDict d)"
    "w' = dict_set w key (PDict (dict_set d k v))"
    unfolding set_nested_eq_Inr by (elim exE conjE)
  with assms(2) show ?thesis
    unfolding option_effect_def
    by (intro disjI2 exI [of _ key] exI [of _ k] exI [of _ v] exI [of _ d]) simp
qed

lemma if_chain_cases:
  assumes "(if c1 then r1 else if c2 then r2 else if c3 then r3 else if c4 then r4
            else if c5 then r5 else if c6 then r6 else if c7 then r7 else if c8 then r8
            else if c9 then r9 else if c10 then r10 else if c11 then r11 else r12) = y"
  obtains "c1" "r1 = y" | "c2" "r2 = y" | "c3" "r3 = y" | "c4" "r4 = y" | "c5" "r5 = y"
    | "c6" "r6 = y" | "c7" "r7 = y" | "c8" "r8 = y" | "c9" "r9 = y" | "c10" "r10 = y"
    | "c11" "r11 = y" | "r12 = y"
  using assms by (auto split: if_splits)

lemma option_effect_stream:
  assumes "(case str_split1 opt ''.'' of
              [stream_name, stream_opt] \<Rightarrow> set_nested w stream_name stream_opt v
            | _ \<Rightarrow> Inl ValueError) = Inr w'"
    and "startswith opt ''stderr_stream'' \<or> startswith opt ''stdout_stream''"
  shows "option_effect opt w w'"
proof -
  from assms(1) obtain a b where ab: "str_split1 opt ''.'' = [a, b]"
    and n: "set_nested w a b v = Inr w'"
    by (auto split: list.splits)
  from assms(2) have "startswith a ''stderr_stream'' \<or> startswith a ''stdout_stream''"
  proof
    assume "startswith opt ''stderr_stream''"
    with ab have "startswith a ''stderr_stream''" by (rule str_split1_dot_prefix) simp
    then show ?thesis ..
  next
    assume "startswith opt ''stdout_stream''"
    with ab have "startswith a ''stdout_stream''" by (rule str_split1_dot_prefix) simp
    then show ?thesis ..
  qed
  then have "startswith a ''stderr_stream'' \<or> startswith a ''stdout_stream''
         \<or> a = ''hooks''
         \<or> (a = ''rlimits'' \<and> startswith opt ''rlimit_'' \<and> b = drop 7 opt)"
    by (elim disjE) (rule disjI1, assumption, rule disjI2, rule disjI1, assumption)
  with n show ?thesis by (rule option_effect_nested)
qed

lemma option_effect_rlimit:
  assumes "thenE r (\<lambda>v. set_nested w ''rlimits'' (drop 7 opt) v) = Inr w'"
    and "startswith opt ''rlimit_''"
  shows "option_effect opt w w'"
proof -
  from assms(1) obtain v where "set_nested w ''rlimits'' (drop 7 opt) v = Inr w'"
    unfolding thenE_eq_Inr by (elim exE conjE)
  then show ?thesis
    by (rule option_effect_nested) (simp add: assms(2))
qed

lemma option_effect_hooks:
  assumes "thenE r (\<lambda>v. set_nested w ''hooks'' k v) = Inr w'"
  shows "option_effect opt w w'"
proof -
  from assms(1) obtain v where "set_nested w ''hooks'' k v = Inr w'"
    unfolding thenE_eq_Inr by (elim exE conjE)
  then show ?thesis
    by (rule option_effect_nested) simp
qed

lemma watcher_option_effect:
  assumes "watcher_option P env w (opt, raw) = Inr w'"
  shows "option_effect opt w w'"
proof -
  have ev: "expand_vars (replace_gnu_args P) (PStr raw) env = PStr (replace_gnu_args P raw env)"
    by simp
  note A = assms [unfolded watcher_option_def prod.case ev pyval.case]
  show ?thesis
  proof (rule if_chain_cases [OF A], goal_cases)
    case 1
    from 1(2) show ?case by (auto simp: option_effect_stored)
  next
    case 2
    then show ?case by hypsubst (erule option_effect_converted)
  next
    case 3
    then show ?case by hypsubst (erule option_effect_converted)
  next
    case 4
    then show ?case by hypsubst (erule option_effect_converted)
  next
    case 5
    from 5(2) show ?case by (rule option_effect_converted)
  next
    case 6
    from 6(2) show ?case unfolding 6(1)
      by (cases "to_signum P (replace_gnu_args P raw env)") (auto simp: option_effect_stored)
  next
    case 7
    then show ?case by hypsubst (erule option_effect_converted)
  next
    case 8
    then show ?case by hypsubst (erule option_effect_converted)
  next
    case 9
    from 9(2) 9(1) show ?case by (rule option_effect_stream)
  next
    case 10
    from 10(2) 10(1) show ?case by (rule option_effect_rlimit)
  next
    case 11
    then show ?case by hypsubst (erule option_effect_converted)
  next
    case 12
    then obtain use_papa where B:
      "(if use_papa
        then Inr (if papa P then dict_set w ''use_papa'' (PBool True) else w)
        else if startswith opt ''hooks.''
        then thenE (hook_value P (replace_gnu_args P raw env)) (\<lambda>v.
               set_nested w ''hooks'' (drop (length ''hooks.'') opt) v)
        else if opt \<in> set [''check_flapping'', ''respawn'', ''autostart'',
                            ''close_child_stdin'']
        then set_converted P w opt (replace_gnu_args P raw env) (PBool True) TBool
        else Inr (dict_set w opt (PStr (replace_gnu_args P raw env)))) = Inr w'"
      and up: "use_papa \<longrightarrow> opt = ''use_papa''"
      unfolding thenE_eq_Inr by (cases "opt = ''use_papa''") auto
    show ?case
    proof (cases use_papa)
      case True
      with up have o: "opt = ''use_papa''" by simp
      from B True have "w' = (if papa P then dict_set w opt (PBool True) else w)"
        unfolding o by simp
      then show ?thesis
        by (cases "papa P") (simp_all add: option_effect_stored option_effect_same)
    next
      case False
      note B' = B [unfolded if_not_P [OF False]]
      show ?thesis
      proof (cases "startswith opt ''hooks.''")
        case True
        from B' [unfolded if_P [OF True]] show ?thesis by (rule option_effect_hooks)
      next
        case nh: False
        note B'' = B' [unfolded if_not_P [OF nh]]
        show ?thesis
        proof (cases "opt \<in> set [''check_flapping'', ''respawn'', ''autostart'',
                            ''close_child_stdin'']")
          case True
          from B'' [unfolded if_P [OF True]] show ?thesis by (rule option_effect_converted)
        next
          case False
          from B'' [unfolded if_not_P [OF False]] show ?thesis
            by (auto simp: option_effect_stored)
        qed
      qed
    qed
  qed
qed

lemma option_effect_other:
  assumes "option_effect opt w w'" and "k \<noteq> opt"
    and "k \<noteq> ''rlimits''" and "k \<noteq> ''hooks''"
    and "\<not> startswith k ''stderr_stream''" and "\<not> startswith k ''stdout_stream''"
  shows "map_of w' k = map_of w k"
  using assms unfolding option_effect_def
  by (elim disjE exE conjE) (auto simp: map_of_dict_set)

lemma options_keep:
  assumes f: "foldE (watcher_option P env) w its = Inr w'" and k: "k \<notin> fst ` set its"
    and "k \<noteq> ''rlimits''" and "k \<noteq> ''hooks''"
    and "\<not> startswith k ''stderr_stream''" and "\<not> startswith k ''stdout_stream''"
  shows "map_of w' k = map_of w k"
proof (rule foldE_invariant [OF f, where I = "\<lambda>a. map_of a k = map_of w k"])
  show "map_of w k = map_of w k" ..
next
  fix a x b
  assume x: "x \<in> set its" and a: "map_of a k = map_of w k"
    and b: "watcher_option P env a x = Inr b"
  obtain opt raw where xo: "x = (opt, raw)" by (cases x)
  from x k have ko: "k \<noteq> opt" unfolding xo by force
  from b have "option_effect opt a b" unfolding xo by (rule watcher_option_effect)
  then have "map_of b k = map_of a k"
    using ko assms(3-6) by (rule option_effect_other)
  with a show "map_of b k = map_of w k" by simp
qed

lemma collect_watcher_result:
  assumes "collect_watcher P cfg global_env local_env s = Inr w"
  obtains name copy_env where
    "item (str_split1 s ''watcher:'') 1 = Inr name"
    "dget P cfg global_env s ''copy_env'' (PBool False) TBool = Inr copy_env"
    "w = dict_set (dict_set (dict_set (watcher_defaults P) ''name'' (PStr name))
           ''copy_env'' copy_env) ''env'' (PDict (if truthy copy_env then global_env else local_env))"
proof -
  from assms obtain name copy_env where
    i: "item (str_split1 s ''watcher:'') 1 = Inr name" and
    c: "dget P cfg global_env s ''copy_env'' (PBool False) TBool = Inr copy_env" and
    r: "(if truthy copy_env
         then Inr (dict_set (dict_set (dict_set (watcher_defaults P) ''name'' (PStr name))
                ''copy_env'' copy_env) ''env'' (PDict global_env))
         else Inr (dict_set (dict_set (dict_set (watcher_defaults P) ''name'' (PStr name))
                ''copy_env'' copy_env) ''env'' (PDict local_env))) = (Inr w :: pyerror + pydict)"
    unfolding collect_watcher_def Let_def thenE_eq_Inr
    by (elim exE conjE) (rule that; assumption)
  from r have "w = dict_set (dict_set (dict_set (watcher_defaults P) ''name'' (PStr name))
           ''copy_env'' copy_env) ''env'' (PDict (if truthy copy_env then global_env else local_env))"
    by (cases "truthy copy_env") simp_all
  with i c show ?thesis by (rule that)
qed

lemma collect_watcher_defaults:
  assumes "collect_watcher P cfg global_env local_env s = Inr w"
    and "k \<noteq> ''name''" and "k \<noteq> ''copy_env''" and "k \<noteq> ''env''"
  shows "map_of w k = map_of (watcher_defaults P) k"
proof -
  from assms(1) obtain name copy_env where
    "w = dict_set (dict_set (dict_set (watcher_defaults P) ''name'' (PStr name))
           ''copy_env'' copy_env) ''env'' (PDict (if truthy copy_env then global_env else local_env))"
    by (rule collect_watcher_result)
  with assms(2-4) show ?thesis by (simp add: map_of_dict_set)
qed

lemma watcher_keeps_default:
  assumes w: "watcher_of_section P cfg global_env local_env s its w"
    and k: "k \<notin> fst ` set its"
    and n: "k \<noteq> ''name''" "k \<noteq> ''copy_env''" "k \<noteq> ''env''"
    and o: "k \<noteq> ''rlimits''" "k \<noteq> ''hooks''"
       "\<not> startswith k ''stderr_stream''" "\<not> startswith k ''stdout_stream''"
  shows "map_of w k = map_of (watcher_defaults P) k"
proof -
  from w obtain w1 w2 e where
    c: "collect_watcher P cfg global_env local_env s = Inr w1" and
    s: "same_but_env w1 w2" and
    f: "foldE (watcher_option P (dict_update global_env e)) w2 its = Inr w"
    unfolding watcher_of_section_def by (elim exE conjE)
  from f k o have "map_of w k = map_of w2 k" by (rule options_keep)
  also from s n(3) have "map_of w2 k = map_of w1 k" by (simp add: same_but_env_def)
  also from c n have "map_of w1 k = map_of (watcher_defaults P) k"
    by (rule collect_watcher_defaults)
  finally show ?thesis .
qed

lemma watcher_env_without_env_sections:
  assumes w: "watcher_of_section P cfg global_env local_env s its w"
    and k: "''env'' \<notin> fst ` set its"
    and ne: "\<forall>s' \<in> set (sections cfg). \<not> startswith s' ''env:''"
  shows "\<exists>copy_env. dget P cfg global_env s ''copy_env'' (PBool False) TBool = Inr copy_env
     \<and> map_of w ''env'' = Some (PDict (if truthy copy_env then global_env else local_env))"
proof -
  from w obtain w1 w2 e where
    c: "collect_watcher P cfg global_env local_env s = Inr w1" and
    i: "(\<forall>s' \<in> set (sections cfg). \<not> startswith s' ''env:'') \<longrightarrow> w2 = w1" and
    f: "foldE (watcher_option P (dict_update global_env e)) w2 its = Inr w"
    unfolding watcher_of_section_def by (elim exE conjE)
  from i ne have w2: "w2 = w1" by simp
  from c obtain name copy_env where
    d: "dget P cfg global_env s ''copy_env'' (PBool False) TBool = Inr copy_env" and
    w1: "w1 = dict_set (dict_set (dict_set (watcher_defaults P) ''name'' (PStr name))
           ''copy_env'' copy_env) ''env'' (PDict (if truthy copy_env then global_env else local_env))"
    by (rule collect_watcher_result)
  from f k have "map_of w ''env'' = map_of w2 ''env''"
    by (rule options_keep) (simp_all add: startswith_def)
  also have "\<dots> = Some (PDict (if truthy copy_env then global_env else local_env))"
    unfolding w2 w1 by (simp add: map_of_dict_set)
  finally show ?thesis using d by (intro exI [of _ copy_env]) simp
qed

lemma startswith_Cons: "startswith (c # s) (d # p) \<longleftrightarrow> c = d \<and> startswith s p"
  by (simp add: startswith_def)

lemma startswith_Nil: "startswith s []"
  by (simp add: startswith_def)

lemma startswith_split: "startswith s p \<Longrightarrow> s = p @ drop (length p) s"
  unfolding startswith_def by (metis append_take_drop_id)

lemma option_effect_rlimits:
  assumes e: "option_effect opt w w'" and o: "opt \<noteq> ''rlimits''"
    and d: "map_of w ''rlimits'' = Some (PDict d)"
  shows "\<exists>d'. map_of w' ''rlimits'' = Some (PDict d')
     \<and> (opt \<noteq> ''rlimit_'' @ n \<longrightarrow> map_of d' n = map_of d n)"
proof -
  from e consider (same) "w' = w" | (stored) v where "w' = dict_set w opt v"
    | (nested) key k v d0 where "map_of w key = Some (PDict d0)"
        "w' = dict_set w key (PDict (dict_set d0 k v))"
        "startswith key ''stderr_stream'' \<or> startswith key ''stdout_stream''
           \<or> key = ''hooks''
           \<or> (key = ''rlimits'' \<and> startswith opt ''rlimit_'' \<and> k = drop 7 opt)"
    unfolding option_effect_def
    by - (erule disjE, (rule that(1); assumption), erule disjE,
        (erule exE, rule that(2); assumption), (elim exE conjE, rule that(3); assumption))
  then show ?thesis
  proof cases
    case same
    with d show ?thesis by simp
  next
    case stored
    with d o show ?thesis by (simp add: map_of_dict_set)
  next
    case nested
    show ?thesis
    proof (cases "key = ''rlimits''")
      case False
      with nested(2) d show ?thesis by (simp add: map_of_dict_set)
    next
      case True
      with nested(1) d have d0: "d0 = d" by simp
      from nested(3) have s: "startswith opt ''rlimit_''" and k: "k = drop 7 opt"
        unfolding True by (simp_all add: startswith_Cons)
      have len: "length ''rlimit_'' = 7" by simp
      from startswith_split [OF s] have "opt = ''rlimit_'' @ drop 7 opt" unfolding len .
      then have "opt = ''rlimit_'' @ k" unfolding k .
      then have kn: "opt \<noteq> ''rlimit_'' @ n \<Longrightarrow> k \<noteq> n" by blast
      from nested(2) have m: "map_of w' ''rlimits'' = Some (PDict (dict_set d k v))"
        unfolding True d0 by (simp add: map_of_dict_set)
      show ?thesis
      proof (intro exI conjI impI)
        show "map_of w' ''rlimits'' = Some (PDict (dict_set d k v))" by (rule m)
      next
        assume "opt \<noteq> ''rlimit_'' @ n"
        then have "k \<noteq> n" by (rule kn)
        then show "map_of (dict_set d k v) n = map_of d n" by (simp add: map_of_dict_set)
      qed
    qed
  qed
qed

lemma options_keep_rlimit:
  assumes f: "foldE (watcher_option P env) w its = Inr w'"
    and k: "''rlimits'' \<notin> fst ` set its" "''rlimit_'' @ n \<notin> fst ` set its"
    and d: "map_of w ''rlimits'' = Some (PDict d)"
  shows "\<exists>d'. map_of w' ''rlimits'' = Some (PDict d') \<and> map_of d' n = map_of d n"
proof (rule foldE_invariant [OF f,
    where I = "\<lambda>a. \<exists>d'. map_of a ''rlimits'' = Some (PDict d') \<and> map_of d' n = map_of d n"])
  from d show "\<exists>d'. map_of w ''rlimits'' = Some (PDict d') \<and> map_of d' n = map_of d n"
    by simp
next
  fix a x b
  assume x: "x \<in> set its"
    and a: "\<exists>d'. map_of a ''rlimits'' = Some (PDict d') \<and> map_of d' n = map_of d n"
    and b: "watcher_option P env a x = Inr b"
  obtain opt raw where xo: "x = (opt, raw)" by (cases x)
  from x k have o: "opt \<noteq> ''rlimits''" "opt \<noteq> ''rlimit_'' @ n" unfolding xo by force+
  from a obtain da where da: "map_of a ''rlimits'' = Some (PDict da)" "map_of da n = map_of d n"
    by (elim exE conjE)
  from b have "option_effect opt a b" unfolding xo by (rule watcher_option_effect)
  from option_effect_rlimits [OF this o(1) da(1), of n] o(2) obtain d' where
    "map_of b ''rlimits'' = Some (PDict d')" "map_of d' n = map_of da n" by auto
  with da(2) show "\<exists>d'. map_of b ''rlimits'' = Some (PDict d') \<and> map_of d' n = map_of d n"
    by simp
qed

lemma watcher_option_rlimit:
  assumes "watcher_option P env w (''rlimit_'' @ n, raw) = Inr w'"
  shows "\<exists>v d. rlimit_value P (Some (replace_gnu_args P raw env)) = Inr v
     \<and> map_of w' ''rlimits'' = Some (PDict d) \<and> map_of d n = Some v"
  using assms
  by (auto simp: watcher_option_def startswith_Cons startswith_Nil thenE_eq_Inr
      set_nested_eq_Inr map_of_dict_set)

lemma watcher_rlimit_stored:
  assumes w: "watcher_of_section P cfg global_env local_env s its w"
    and d: "distinct (map fst its)"
    and m: "(''rlimit_'' @ n, raw) \<in> set its"
    and r: "''rlimits'' \<notin> fst ` set its"
  shows "\<exists>env v. rlimit_value P (Some (replace_gnu_args P raw env)) = Inr v
     \<and> rlimit_of w n = Some v"
proof -
  from w obtain w2 e where
    f: "foldE (watcher_option P (dict_update global_env e)) w2 its = Inr w"
    unfolding watcher_of_section_def by (elim exE conjE)
  let ?env = "dict_update global_env e"
  from m obtain pre post where its: "its = pre @ (''rlimit_'' @ n, raw) # post"
    by (auto dest: split_list)
  from d have np: "''rlimit_'' @ n \<notin> fst ` set post"
    unfolding its by simp
  from r have rp: "''rlimits'' \<notin> fst ` set post"
    unfolding its by (simp add: image_Un)
  from f obtain a b where
    "watcher_option P ?env a (''rlimit_'' @ n, raw) = Inr b" and
    p: "foldE (watcher_option P ?env) b post = Inr w"
    unfolding its foldE_append foldE.simps thenE_eq_Inr by (elim exE conjE)
  from watcher_option_rlimit [OF this(1)] obtain v d0 where
    v: "rlimit_value P (Some (replace_gnu_args P raw ?env)) = Inr v" and
    b: "map_of b ''rlimits'' = Some (PDict d0)" "map_of d0 n = Some v"
    by (elim exE conjE)
  from options_keep_rlimit [OF p rp np b(1)] obtain d' where
    "map_of w ''rlimits'' = Some (PDict d')" "map_of d' n = map_of d0 n"
    by (elim exE conjE)
  with b(2) have "rlimit_of w n = Some v" by (simp add: rlimit_of_def)
  with v show ?thesis by (intro exI [of _ ?env] exI [of _ v] conjI)
qed

lemma rlimit_value_of_numeral:
  assumes "py_int P val = Some i" and "val \<noteq> []"
  shows "rlimit_value P (Some val) = Inr (PInt i)"
  using assms by (simp add: rlimit_value_def)

lemma watcher_dicts_of_list:
  "map_of snap ''watchers'' = Some (PList (map PDict ws)) \<Longrightarrow> watcher_dicts (Inr snap) = ws"
  by (simp add: watcher_dicts_def comp_def)

lemma sample_run:
  "get_config sample_platform sample_config =
     Inr [(''check_delay'', PFloat (Finite 5)), (''endpoint'',
         PStr ''tcp://127.0.0.1:5555''), (''endpoint_owner'', PNone), (''pubsub_endpoint'',
         PStr ''tcp://127.0.0.1:5556''), (''multicast_endpoint'',
         PStr ''udp://237.219.251.97:12027''), (''stats_endpoint'',
         PStr ''tcp://127.0.0.1:9000''), (''statsd'', PBool True), (''umask'', PNone),
         (''warmup_delay'', PInt 0), (''httpd'', PBool False), (''httpd_host'',
         PStr ''localhost''), (''httpd_port'', PInt 8080), (''debug'', PBool False),
         (''debug_gc'', PBool False), (''pidfile'', PNone), (''loglevel'', PNone),
         (''logoutput'', PNone), (''loggerconfig'', PNone), (''fqdn_prefix'', PNone),
         (''papa_endpoint'', PNone), (''watchers'', PList [PDict [(''name'', PStr ''a''),
         (''cmd'', PStr ''sleep''), (''args'', PStr ''''), (''numprocesses'', PInt 1),
         (''warmup_delay'', PInt 0), (''executable'', PNone), (''working_dir'', PNone),
         (''shell'', PBool False), (''uid'', PNone), (''gid'', PNone), (''send_hup'',
         PBool False), (''stop_signal'', PInt 15), (''stop_children'', PBool False),
         (''max_retry'', PInt 5), (''graceful_timeout'', PInt 30), (''rlimits'', PDict []),
         (''stderr_stream'', PDict []), (''stdout_stream'', PDict []), (''priority'',
         PInt 1), (''use_sockets'', PBool False), (''singleton'', PBool False),
         (''copy_env'', PBool False), (''copy_path'', PBool True), (''hooks'', PDict []),
         (''respawn'', PBool True), (''autostart'', PBool True), (''use_papa'',
         PBool False), (''env'', PDict [])], PDict [(''name'', PStr ''b''), (''cmd'',
         PStr ''ls''), (''args'', PStr ''''), (''numprocesses'', PInt 1), (''warmup_delay'',
         PInt 0), (''executable'', PNone), (''working_dir'', PNone), (''shell'',
         PBool False), (''uid'', PNone), (''gid'', PNone), (''send_hup'', PBool False),
         (''stop_signal'', PInt 15), (''stop_children'', PBool False), (''max_retry'',
         PInt 5), (''graceful_timeout'', PInt 30), (''rlimits'', PDict [(''nofile'',
         PInt (- 1))]), (''stderr_stream'', PDict []), (''stdout_stream'', PDict []),
         (''priority'', PInt 2), (''use_sockets'', PBool False), (''singleton'',
         PBool False), (''copy_env'', PBool True), (''copy_path'', PBool False), (''hooks'',
         PDict []), (''respawn'', PBool True), (''autostart'', PBool True), (''use_papa'',
         PBool False), (''env'', PDict [(''PATH'', PStr ''/usr/bin''), (''HOME'',
         PStr ''/root'')])]]), (''plugins'', PList [PDict [(''use'', PStr ''stats.Plugin''),
         (''name'', PStr ''plugin:stats'')]]), (''sockets'', PList [PDict [(''host'',
         PStr ''localhost''), (''name'', PStr ''web''), (''so_reuseport'', PBool False),
         (''replace'', PBool False)]])]"
  by code_simp

lemma sample_run_macos:
  "get_config sample_platform_macos sample_config = get_config sample_platform sample_config"
  by code_simp

lemma plain_run:
  "get_config sample_platform plain_config =
     Inr [(''check_delay'', PFloat (Finite 5)),
         (''endpoint'', PStr ''tcp://127.0.0.1:5555''), (''endpoint_owner'', PNone),
         (''pubsub_endpoint'', PStr ''tcp://127.0.0.1:5556''),
         (''multicast_endpoint'', PStr ''udp://237.219.251.97:12027''),
         (''stats_endpoint'', PStr ''tcp://127.0.0.1:5557''), (''statsd'', PBool False),
         (''umask'', PNone), (''warmup_delay'', PInt 0), (''httpd'', PBool False),
         (''httpd_host'', PStr ''localhost''), (''httpd_port'', PInt 8080),
         (''debug'', PBool False), (''debug_gc'', PBool False), (''pidfile'', PNone),
         (''loglevel'', PNone), (''logoutput'', PNone), (''loggerconfig'', PNone),
         (''fqdn_prefix'', PNone), (''papa_endpoint'', PNone),
         (''watchers'', PList [PDict [(''name'', PStr ''w''), (''cmd'', PStr ''sleep''),
         (''args'', PStr ''''), (''numprocesses'', PInt 1), (''warmup_delay'', PInt 0),
         (''executable'', PNone), (''working_dir'', PNone), (''shell'', PBool False),
         (''uid'', PNone), (''gid'', PNone), (''send_hup'', PBool False),
         (''stop_signal'', PInt 15), (''stop_children'', PBool False),
         (''max_retry'', PInt 5), (''graceful_timeout'', PInt 30), (''rlimits'', PDict []),
         (''stderr_stream'', PDict []), (''stdout_stream'', PDict []),
         (''priority'', PInt 0), (''use_sockets'', PBool False),
         (''singleton'', PBool False), (''copy_env'', PBool False),
         (''copy_path'', PBool False), (''hooks'', PDict []), (''respawn'', PBool True),
         (''autostart'', PBool True), (''use_papa'', PBool False), (''env'', PDict [])]]),
         (''plugins'', PList []), (''sockets'', PList [])]"
  by code_simp

lemma sample_listed: "listed_sections sample_platform sample_config = Inr [''watcher:a'', ''watcher:b'']"
  by code_simp

lemma sample_listed_macos:
  "listed_sections sample_platform_macos sample_config = Inr [''watcher:a'', ''watcher:b'']"
  by code_simp

lemma plain_listed: "listed_sections sample_platform plain_config = Inr [''watcher:w'']"
  by code_simp

lemma sample_sections_distinct: "distinct (sections sample_config)"
  by code_simp

lemma plain_sections_distinct: "distinct (sections plain_config)"
  by code_simp

lemma sample_collected:
  "collected_watchers sample_platform sample_config
     = Inr ([''watcher:a'', ''watcher:b''],
            map (\<lambda>(n, ce, e). dict_set (dict_set (dict_set (watcher_defaults sample_platform)
                   ''name'' (PStr n)) ''copy_env'' (PBool ce)) ''env'' (PDict e))
              [(''a'', False, []),
               (''b'', True, [(''PATH'', PStr ''/usr/bin''), (''HOME'', PStr ''/root'')])])"
  by code_simp

lemma sample_read_env:
  "read_env sample_platform sample_config
     = Inr ([], [(''PATH'', PStr ''/usr/bin''), (''HOME'', PStr ''/root'')])"
  by code_simp

lemma sample_no_env_sections:
  "\<forall>s' \<in> set (sections sample_config). \<not> startswith s' ''env:''"
  by code_simp

lemma sample_macos_conversions:
  "\<forall>env. replace_gnu_args sample_platform_macos ''-1'' env = ''-1''"
  "py_int sample_platform_macos ''-1'' = Some (- 1)"
  by (simp add: sample_platform_macos_def sample_platform_def, code_simp)

lemma dget_absent: "\<not> has_option cfg s opt \<Longrightarrow> dget P cfg env s opt dflt ty = Inr dflt"
  by (simp add: dget_def)

lemma dget_bool:
  assumes "dget P cfg env s opt (PBool d) TBool = Inr v"
  shows "\<exists>b. v = PBool b"
proof (cases "has_option cfg s opt")
  case False
  with assms show ?thesis by (auto simp: dget_def)
next
  case True
  with assms obtain x where "dget_static P (Some x) (PBool d) TBool = Inr v"
    by (auto simp: dget_def thenE_eq_Inr)
  then show ?thesis by (cases "to_bool P x") auto
qed

lemma dget_str_present:
  assumes "dget P cfg env s opt dflt TStr = Inr v" and "has_option cfg s opt"
  shows "\<exists>x. v = PStr x"
  using assms by (auto simp: dget_def thenE_eq_Inr)

lemma listed_watchers:
  assumes g: "get_config P cfg = Inr snap" and d: "distinct (sections cfg)"
    and l: "listed_sections P cfg = Inr secs"
  obtains local_env global_env where
    "read_env P cfg = Inr (local_env, global_env)"
    "list_all2 (\<lambda>s w. \<exists>its. watcher_of_section P cfg global_env local_env s its w)
       secs (watcher_dicts (get_config P cfg))"
proof -
  from g d obtain local_env global_env and st :: collected and ws0 ws where
    re: "read_env P cfg = Inr (local_env, global_env)" and
    ls: "listed_sections P cfg = Inr (reorder (watchers st) (sort_by_field P ws0))" and
    mw: "map_of snap ''watchers'' = Some (PList (map PDict ws))" and
    la: "list_all2 (\<lambda>s w. \<exists>its. watcher_of_section P cfg global_env local_env s its w)
       (reorder (watchers st) (sort_by_field P ws0)) ws"
    by (rule snapshot_watchers) (rule that; assumption)
  from l ls have "secs = reorder (watchers st) (sort_by_field P ws0)" by simp
  moreover from mw have "watcher_dicts (get_config P cfg) = ws"
    unfolding g by (rule watcher_dicts_of_list)
  ultimately have "list_all2 (\<lambda>s w. \<exists>its. watcher_of_section P cfg global_env local_env s its w)
       secs (watcher_dicts (get_config P cfg))" using la by simp
  with re show ?thesis by (rule that)
qed

lemma snapshot_main_options:
  assumes "get_config P cfg = Inr snap"
  obtains local_env global_env cd se sd where
    "read_env P cfg = Inr (local_env, global_env)"
    "dget P cfg global_env ''circus'' ''check_delay'' (PFloat (Finite 5)) TFloat = Inr cd"
    "dget P cfg global_env ''circus'' ''stats_endpoint'' PNone TStr = Inr se"
    "dget P cfg global_env ''circus'' ''statsd'' (PBool False) TBool = Inr sd"
    "map_of snap ''check_delay'' = Some cd"
    "map_of snap ''stats_endpoint'' = Some (if se = PNone then PStr (DEFAULT_ENDPOINT_STATS P) else se)"
    "map_of snap ''statsd'' = Some (if se \<noteq> PNone \<and> \<not> truthy sd then PBool True else sd)"
proof -
  from assms obtain local_env global_env config a b c where
    re: "read_env P cfg = Inr (local_env, global_env)" and
    m: "main_options P cfg global_env = Inr config" and
    s: "snap = dict_set (dict_set (dict_set config ''watchers'' a) ''plugins'' b) ''sockets'' c"
    by (rule get_config_result)
  from main_options_result [OF m] obtain cd se sd where
    r: "dget P cfg global_env ''circus'' ''check_delay'' (PFloat (Finite 5)) TFloat = Inr cd"
    "dget P cfg global_env ''circus'' ''stats_endpoint'' PNone TStr = Inr se"
    "dget P cfg global_env ''circus'' ''statsd'' (PBool False) TBool = Inr sd"
    "map_of config ''check_delay'' = Some cd"
    "map_of config ''stats_endpoint''
         = Some (if se = PNone then PStr (DEFAULT_ENDPOINT_STATS P) else se)"
    "map_of config ''statsd''
         = Some (if se \<noteq> PNone \<and> \<not> truthy sd then PBool True else sd)"
    by (elim exE conjE)
  have k: "map_of snap ''check_delay'' = map_of config ''check_delay''"
    "map_of snap ''stats_endpoint'' = map_of config ''stats_endpoint''"
    "map_of snap ''statsd'' = map_of config ''statsd''"
    unfolding s by (simp_all add: map_of_dict_set)
  show ?thesis
    using re r(1-3) r(4-6) [folded k] by (rule that)
qed

lemma watcher_option_priority:
  assumes "watcher_option P env w (''priority'', raw) = Inr w'"
  shows "\<exists>i. py_int P (replace_gnu_args P raw env) = Some i
     \<and> map_of w' ''priority'' = Some (PInt i)"
  using assms
  by (auto simp: watcher_option_def startswith_Cons set_converted_eq_Inr map_of_dict_set
      split: option.splits)

lemma watcher_priority_stored:
  assumes w: "watcher_of_section P cfg global_env local_env s its w"
    and d: "distinct (map fst its)"
    and m: "(''priority'', raw) \<in> set its"
  shows "\<exists>env i. py_int P (replace_gnu_args P raw env) = Some i
     \<and> map_of w ''priority'' = Some (PInt i)"
proof -
  from w obtain w2 e where
    f: "foldE (watcher_option P (dict_update global_env e)) w2 its = Inr w"
    unfolding watcher_of_section_def by (elim exE conjE)
  let ?env = "dict_update global_env e"
  from m obtain pre post where its: "its = pre @ (''priority'', raw) # post"
    by (auto dest: split_list)
  from d have np: "''priority'' \<notin> fst ` set post"
    unfolding its by simp
  from f obtain a b where
    "watcher_option P ?env a (''priority'', raw) = Inr b" and
    p: "foldE (watcher_option P ?env) b post = Inr w"
    unfolding its foldE_append foldE.simps thenE_eq_Inr by (elim exE conjE)
  from watcher_option_priority [OF this(1)] obtain i where
    i: "py_int P (replace_gnu_args P raw ?env) = Some i" and
    b: "map_of b ''priority'' = Some (PInt i)"
    by (elim exE conjE)
  from p np have "map_of w ''priority'' = map_of b ''priority''"
    by (rule options_keep) (simp_all add: startswith_Cons)
  with b have "map_of w ''priority'' = Some (PInt i)" by simp
  with i show ?thesis by (intro exI [of _ ?env] exI [of _ i] conjI)
qed

lemma collected_priorities:
  assumes ok: "collected_ok P cfg global_env local_env st"
    and m: "mapE (the_watcher (watchers_map st)) (watchers st) = Inr ws0"
  shows "list_all (\<lambda>w0. map_of w0 ''priority'' = Some (PInt 0)) ws0"
  unfolding list_all_length
proof (intro allI impI)
  fix n assume n: "n < length ws0"
  with mapE_length [OF m] have n': "n < length (watchers st)" by simp
  from mapE_nth [OF m n'] have "map_of (watchers_map st) (watchers st ! n) = Some (ws0 ! n)"
    by (simp add: the_watcher_eq_Inr)
  with ok have "collect_watcher P cfg global_env local_env (watchers st ! n) = Inr (ws0 ! n)"
    by (simp add: collected_ok_def)
  from collect_watcher_defaults [OF this, of "''priority''"]
  show "map_of (ws0 ! n) ''priority'' = Some (PInt 0)"
    by (simp add: watcher_defaults_def)
qed

lemma read_env_without_env_section:
  assumes "read_env P cfg = Inr (local_env, global_env)" and "''env'' \<notin> set (sections cfg)"
  shows "local_env = [] \<and> global_env = dict_from (os_environ P)"
  using assms by (simp add: read_env_def Let_def)

lemma watcher_name_kept:
  assumes w: "watcher_of_section P cfg global_env local_env s its w"
    and k: "''name'' \<notin> fst ` set its"
  shows "\<exists>name. item (str_split1 s ''watcher:'') 1 = Inr name
     \<and> map_of w ''name'' = Some (PStr name)"
proof -
  from w obtain w1 w2 e where
    c: "collect_watcher P cfg global_env local_env s = Inr w1" and
    s: "same_but_env w1 w2" and
    f: "foldE (watcher_option P (dict_update global_env e)) w2 its = Inr w"
    unfolding watcher_of_section_def by (elim exE conjE)
  from c obtain name copy_env where
    i: "item (str_split1 s ''watcher:'') 1 = Inr name" and
    w1: "w1 = dict_set (dict_set (dict_set (watcher_defaults P) ''name'' (PStr name))
           ''copy_env'' copy_env) ''env'' (PDict (if truthy copy_env then global_env else local_env))"
    by (rule collect_watcher_result)
  from f k have "map_of w ''name'' = map_of w2 ''name''"
    by (rule options_keep) (simp_all add: startswith_Cons)
  also from s have "\<dots> = map_of w1 ''name''" by (simp add: same_but_env_def)
  also have "\<dots> = Some (PStr name)" unfolding w1 by (simp add: map_of_dict_set)
  finally show ?thesis using i by (intro exI [of _ name] conjI)
qed

lemma expand_vars_other:
  "\<not> is_str v \<Longrightarrow> \<not> is_dict v \<Longrightarrow> \<not> is_list v \<Longrightarrow> expand_vars rga v env = v"
  by (cases v) simp_all

lemma expand_vars_dict_keys:
  "map fst (map (\<lambda>(key, v). (key, expand_vars rga v env)) kvs) = map fst kvs"
  by (induction kvs) auto

lemma expand_vars_dict_values:
  "map snd (map (\<lambda>(key, v). (key, expand_vars rga v env)) kvs)
     = map (\<lambda>v. expand_vars rga v env) (map snd kvs)"
  by (induction kvs) auto

text \<open>
  C8. \<open>expand_vars\<close> preserves the structure of its input. Applied to a dictionary it
  returns a dictionary with exactly the same keys, in the same order, each value being
  the recursive expansion of the value stored under that key; applied to a list it
  returns a list of the same length whose elements are the recursive expansions of the
  elements; applied to a value that is neither a string, a dictionary nor a list it
  returns the value unchanged.
\<close>

theorem expand_vars_preserves_structure:
  "(\<exists>kvs'. expand_vars rga (PDict kvs) env = PDict kvs'
       \<and> map fst kvs' = map fst kvs
       \<and> map snd kvs' = map (\<lambda>v. expand_vars rga v env) (map snd kvs))
   \<and> (\<exists>vs'. expand_vars rga (PList vs) env = PList vs'
       \<and> length vs' = length vs
       \<and> vs' = map (\<lambda>v. expand_vars rga v env) vs)
   \<and> (\<not> is_str x \<and> \<not> is_dict x \<and> \<not> is_list x \<longrightarrow> expand_vars rga x env = x)"
proof (intro conjI)
  show "\<exists>kvs'. expand_vars rga (PDict kvs) env = PDict kvs'
       \<and> map fst kvs' = map fst kvs
       \<and> map snd kvs' = map (\<lambda>v. expand_vars rga v env) (map snd kvs)"
    using expand_vars_dict_keys [of rga env kvs] expand_vars_dict_values [of rga env kvs]
    by simp
  show "\<exists>vs'. expand_vars rga (PList vs) env = PList vs'
       \<and> length vs' = length vs
       \<and> vs' = map (\<lambda>v. expand_vars rga v env) vs"
    by simp
  show "\<not> is_str x \<and> \<not> is_dict x \<and> \<not> is_list x \<longrightarrow> expand_vars rga x env = x"
    using expand_vars_other [of x rga env] by blast
qed

theorem expand_vars_preserves_structure_witness:
  "(\<exists>kvs'. expand_vars (\<lambda>s e. s @ ''!'') (PDict [(''a'', PStr ''x''), (''b'', PInt 3)]) [] = PDict kvs'
       \<and> map fst kvs' = [''a'', ''b'']
       \<and> map snd kvs' = [PStr ''x!'', PInt 3])
   \<and> (\<exists>vs'. expand_vars (\<lambda>s e. s @ ''!'') (PList [PStr ''y'', PNone]) [] = PList vs'
       \<and> length vs' = 2
       \<and> vs' = [PStr ''y!'', PNone])
   \<and> (\<not> is_str (PBool True) \<and> \<not> is_dict (PBool True) \<and> \<not> is_list (PBool True))
   \<and> expand_vars (\<lambda>s e. s @ ''!'') (PBool True) [] = PBool True"
  using expand_vars_preserves_structure
    [of "\<lambda>s e. s @ ''!''" "[(''a'', PStr ''x''), (''b'', PInt 3)]" "[]"
        "[PStr ''y'', PNone]" "PBool True"]
  by simp

subsection \<open>\<open>os_open\<close>\<close>
















subsection \<open>\<open>CircusConsumer\<close>\<close>

lemma received_two_frames:
  "received (PollReady (Frames fs) # rounds)
     = (case fs of [topic, message] \<Rightarrow> (topic, message) # received rounds
        | _ \<Rightarrow> received rounds)"
  by (cases "(PollReady (Frames fs) # rounds)" rule: received.cases) auto

lemma iter_loop_yields_prefix: "\<exists>rest. received rounds = fst (iter_loop rounds) @ rest"
proof (induction rounds)
  case Nil
  show ?case by simp
next
  case (Cons ev rounds)
  then obtain rest where r: "received rounds = fst (iter_loop rounds) @ rest" by blast
  show ?case
  proof (cases ev)
    case (PollRaises e)
    with r show ?thesis by simp
  next
    case PollTimeout
    with r show ?thesis by simp
  next
    case (PollReady rr)
    show ?thesis
    proof (cases rr)
      case (RecvRaises e)
      with PollReady show ?thesis by simp
    next
      case (Frames fs)
      with PollReady r show ?thesis
        by (simp add: received_two_frames split: list.splits prod.splits)
    qed
  qed
qed

lemma iter_loop_yields_received: "set (fst (iter_loop rounds)) \<subseteq> set (received rounds)"
  using iter_loop_yields_prefix [of rounds] by auto

lemma iter_messages_yields: "fst (iter_messages self rounds d ctx) = fst (iter_loop rounds)"
  by (simp add: iter_messages_def split: prod.splits option.splits)

lemma stop_keeps_supplied_context:
  "keep_context self \<Longrightarrow> stop self d ctx = (None, ctx)"
  by (simp add: stop_def)

lemma stop_destroys_own_context:
  "\<not> keep_context self \<Longrightarrow> stop self Destroyed ctx = (None, destroyed ctx)"
  by (simp add: stop_def)

lemma released_after_destroy:
  "pubsub_socket self < length (ctx_sockets ctx) \<Longrightarrow> released self (destroyed ctx)"
  by (simp add: released_def destroyed_def)

lemma consumer_socket_in_context:
  "CircusConsumer tps context ep = (self, ctx) \<Longrightarrow> pubsub_socket self < length (ctx_sockets ctx)"
  by (auto simp: CircusConsumer_def Let_def)

lemma consumer_keep_context:
  "CircusConsumer tps context ep = (self, ctx) \<Longrightarrow> keep_context self = (context \<noteq> None)"
  by (auto simp: CircusConsumer_def Let_def)






text \<open>
  C6 (as amended). For every \<open>CircusConsumer\<close>, \<open>iter_messages\<close> yields only
  \<open>(topic, message)\<close> pairs received on the subscribed socket. Stopping the consumer
  (by \<open>stop\<close> or by leaving it as a context manager) closes the socket and releases the
  zmq context when the consumer created the context itself and the destruction
  completes; when the caller supplied the context at construction, stopping returns at
  once and leaves the context live and the socket open.
\<close>

theorem consumer_yields_received_and_stop_releases_own_context:
  assumes "CircusConsumer tps context ep = (self, ctx)"
  shows "set (fst (iter_messages self rounds d ctx)) \<subseteq> set (received rounds)
    \<and> (context = None \<longrightarrow>
          stop self Destroyed ctx = (None, destroyed ctx)
          \<and> exit_consumer self Destroyed ctx = (None, destroyed ctx)
          \<and> released self (destroyed ctx))
    \<and> (context \<noteq> None \<longrightarrow>
          stop self d ctx = (None, ctx) \<and> exit_consumer self d ctx = (None, ctx)
          \<and> \<not> released self ctx)"
proof -
  have k: "keep_context self = (context \<noteq> None)"
    using assms by (rule consumer_keep_context)
  have open_sock: "\<not> released self ctx"
    using assms by (auto simp: CircusConsumer_def Let_def released_def nth_append)
  have y: "set (fst (iter_messages self rounds d ctx)) \<subseteq> set (received rounds)"
    by (simp add: iter_messages_yields iter_loop_yields_received)
  have own: "context = None \<longrightarrow>
          stop self Destroyed ctx = (None, destroyed ctx)
          \<and> exit_consumer self Destroyed ctx = (None, destroyed ctx)
          \<and> released self (destroyed ctx)"
    using k consumer_socket_in_context [OF assms]
    by (simp add: exit_consumer_def stop_destroys_own_context released_after_destroy)
  have kept: "context \<noteq> None \<longrightarrow>
          stop self d ctx = (None, ctx) \<and> exit_consumer self d ctx = (None, ctx)
          \<and> \<not> released self ctx"
    using k open_sock by (simp add: exit_consumer_def stop_keeps_supplied_context)
  from y own kept show ?thesis by blast
qed

theorem consumer_yields_received_and_stop_releases_own_context_witness:
  "CircusConsumer [''watcher.''] None ''tcp://127.0.0.1:5556''
     = (\<lparr> topics = [''watcher.''], keep_context = False, endpoint = ''tcp://127.0.0.1:5556'',
            pubsub_socket = 0 \<rparr>,
        \<lparr> terminated = False,
            ctx_sockets = [\<lparr> closed = False, connected = [''tcp://127.0.0.1:5556''],
                         subscribed = [''watcher.''] \<rparr>] \<rparr>)
   \<and> released \<lparr> topics = [''watcher.''], keep_context = False,
                  endpoint = ''tcp://127.0.0.1:5556'', pubsub_socket = 0 \<rparr>
        (destroyed \<lparr> terminated = False,
            ctx_sockets = [\<lparr> closed = False, connected = [''tcp://127.0.0.1:5556''],
                         subscribed = [''watcher.''] \<rparr>] \<rparr>)
   \<and> set (fst (iter_messages \<lparr> topics = [''watcher.''], keep_context = False,
                  endpoint = ''tcp://127.0.0.1:5556'', pubsub_socket = 0 \<rparr>
               [PollTimeout, PollReady (Frames [''watcher.a.reap'', ''{}''])] Destroyed
               \<lparr> terminated = False,
                  ctx_sockets = [\<lparr> closed = False, connected = [''tcp://127.0.0.1:5556''],
                         subscribed = [''watcher.''] \<rparr>] \<rparr>))
       \<subseteq> set (received [PollTimeout, PollReady (Frames [''watcher.a.reap'', ''{}''])])"
proof -
  have c: "CircusConsumer [''watcher.''] None ''tcp://127.0.0.1:5556''
     = (\<lparr> topics = [''watcher.''], keep_context = False, endpoint = ''tcp://127.0.0.1:5556'',
            pubsub_socket = 0 \<rparr>,
        \<lparr> terminated = False,
            ctx_sockets = [\<lparr> closed = False, connected = [''tcp://127.0.0.1:5556''],
                         subscribed = [''watcher.''] \<rparr>] \<rparr>)"
    by (simp add: CircusConsumer_def new_context_def)
  show ?thesis
    using c consumer_yields_received_and_stop_releases_own_context
      [OF c, of "[PollTimeout, PollReady (Frames [''watcher.a.reap'', ''{}''])]" Destroyed]
    by simp
qed

text \<open>
  The claim as stated fails: a consumer built on a context supplied by the caller does
  not close its socket or release the context when it is stopped.
\<close>

theorem stop_with_supplied_context_counterexample:
  "\<not> released (fst (CircusConsumer [''watcher.''] (Some new_context) ''tcp://127.0.0.1:5556''))
       (snd (stop (fst (CircusConsumer [''watcher.''] (Some new_context) ''tcp://127.0.0.1:5556''))
                  Destroyed
                  (snd (CircusConsumer [''watcher.''] (Some new_context)
                          ''tcp://127.0.0.1:5556''))))"
  by (simp add: CircusConsumer_def new_context_def stop_def released_def)



text \<open>
  C1. When \<open>get_config\<close> returns a snapshot for a configuration file, the snapshot holds
  the keys \<open>check_delay\<close>, \<open>endpoint\<close>, \<open>pubsub_endpoint\<close>, \<open>stats_endpoint\<close>, \<open>statsd\<close>,
  \<open>umask\<close>, \<open>warmup_delay\<close>, \<open>loglevel\<close> and \<open>pidfile\<close>, and under each of \<open>watchers\<close>,
  \<open>sockets\<close> and \<open>plugins\<close> a list whose entries are all dictionaries.
\<close>

theorem snapshot_has_global_options_and_three_lists:
  assumes "get_config P cfg = Inr snap"
  shows "set [''check_delay'', ''endpoint'', ''pubsub_endpoint'', ''stats_endpoint'', ''statsd'',
              ''umask'', ''warmup_delay'', ''loglevel'', ''pidfile'',
              ''watchers'', ''sockets'', ''plugins''] \<subseteq> set (map fst snap)
       \<and> (\<exists>ws ss ps. map_of snap ''watchers'' = Some (PList ws) \<and> list_all is_dict ws
             \<and> map_of snap ''sockets'' = Some (PList ss) \<and> list_all is_dict ss
             \<and> map_of snap ''plugins'' = Some (PList ps) \<and> list_all is_dict ps)"
proof
  show "set [''check_delay'', ''endpoint'', ''pubsub_endpoint'', ''stats_endpoint'', ''statsd'',
              ''umask'', ''warmup_delay'', ''loglevel'', ''pidfile'',
              ''watchers'', ''sockets'', ''plugins''] \<subseteq> set (map fst snap)"
    unfolding snapshot_keys [OF assms] by simp
next
  from snapshot_lists [OF assms] obtain ws ps ss where
    l: "map_of snap ''watchers'' = Some (PList (map PDict ws))"
       "map_of snap ''plugins'' = Some (PList (map PDict ps))"
       "map_of snap ''sockets'' = Some (PList (map PDict ss))"
    by (elim exE conjE)
  show "\<exists>ws ss ps. map_of snap ''watchers'' = Some (PList ws) \<and> list_all is_dict ws
             \<and> map_of snap ''sockets'' = Some (PList ss) \<and> list_all is_dict ss
             \<and> map_of snap ''plugins'' = Some (PList ps) \<and> list_all is_dict ps"
    using l list_all_is_dict
    by (intro exI [of _ "map PDict ws"] exI [of _ "map PDict ss"] exI [of _ "map PDict ps"]) simp
qed

theorem snapshot_has_global_options_and_three_lists_witness:
  "\<exists>snap. get_config sample_platform sample_config = Inr snap
     \<and> set [''check_delay'', ''endpoint'', ''pubsub_endpoint'', ''stats_endpoint'', ''statsd'',
              ''umask'', ''warmup_delay'', ''loglevel'', ''pidfile'',
              ''watchers'', ''sockets'', ''plugins''] \<subseteq> set (map fst snap)
     \<and> (\<exists>ws ss ps. map_of snap ''watchers'' = Some (PList ws) \<and> list_all is_dict ws
             \<and> length ws = 2
             \<and> map_of snap ''sockets'' = Some (PList ss) \<and> list_all is_dict ss
             \<and> length ss = 1
             \<and> map_of snap ''plugins'' = Some (PList ps) \<and> list_all is_dict ps
             \<and> length ps = 1)"
  using snapshot_has_global_options_and_three_lists [OF sample_run]
  by - (rule exI, rule conjI, rule sample_run, simp)

text \<open>
  C3. When \<open>[circus]\<close> has the option \<open>stats_endpoint\<close>, the snapshot returned by
  \<open>get_config\<close> has \<open>statsd\<close> equal to \<open>True\<close>, whatever \<open>statsd\<close> is set to. When
  \<open>stats_endpoint\<close> is absent, \<open>stats_endpoint\<close> is the default stats endpoint and \<open>statsd\<close>
  is the value \<open>dget\<close> reads for it, \<open>False\<close> when the option is absent too.
\<close>

theorem stats_endpoint_enables_statsd:
  assumes "get_config P cfg = Inr snap"
  shows "(has_option cfg ''circus'' ''stats_endpoint''
            \<longrightarrow> map_of snap ''statsd'' = Some (PBool True))
       \<and> (\<not> has_option cfg ''circus'' ''stats_endpoint''
            \<longrightarrow> map_of snap ''stats_endpoint'' = Some (PStr (DEFAULT_ENDPOINT_STATS P))
              \<and> (\<exists>local_env global_env sd. read_env P cfg = Inr (local_env, global_env)
                    \<and> dget P cfg global_env ''circus'' ''statsd'' (PBool False) TBool = Inr sd
                    \<and> map_of snap ''statsd'' = Some sd)
              \<and> (\<not> has_option cfg ''circus'' ''statsd''
                    \<longrightarrow> map_of snap ''statsd'' = Some (PBool False)))"
proof -
  from assms obtain local_env global_env cd se sd where
    re: "read_env P cfg = Inr (local_env, global_env)" and
    se: "dget P cfg global_env ''circus'' ''stats_endpoint'' PNone TStr = Inr se" and
    sd: "dget P cfg global_env ''circus'' ''statsd'' (PBool False) TBool = Inr sd" and
    mse: "map_of snap ''stats_endpoint''
            = Some (if se = PNone then PStr (DEFAULT_ENDPOINT_STATS P) else se)" and
    msd: "map_of snap ''statsd''
            = Some (if se \<noteq> PNone \<and> \<not> truthy sd then PBool True else sd)"
    by (rule snapshot_main_options)
  from dget_bool [OF sd] obtain b where b: "sd = PBool b" ..
  show ?thesis
  proof (intro conjI impI)
    assume "has_option cfg ''circus'' ''stats_endpoint''"
    with se obtain x where "se = PStr x" by (auto dest: dget_str_present)
    with msd b show "map_of snap ''statsd'' = Some (PBool True)" by simp
  next
    assume "\<not> has_option cfg ''circus'' ''stats_endpoint''"
    with se have n: "se = PNone" by (simp add: dget_absent)
    with mse show "map_of snap ''stats_endpoint'' = Some (PStr (DEFAULT_ENDPOINT_STATS P))"
      by simp
    from n msd have m: "map_of snap ''statsd'' = Some sd" by simp
    with re sd show "\<exists>local_env global_env sd. read_env P cfg = Inr (local_env, global_env)
        \<and> dget P cfg global_env ''circus'' ''statsd'' (PBool False) TBool = Inr sd
        \<and> map_of snap ''statsd'' = Some sd"
      by (intro exI [of _ local_env] exI [of _ global_env] exI [of _ sd]) simp
    assume "\<not> has_option cfg ''circus'' ''statsd''"
    with sd have "sd = PBool False" by (simp add: dget_absent)
    with m show "map_of snap ''statsd'' = Some (PBool False)" by simp
  qed
qed

theorem stats_endpoint_enables_statsd_witness:
  "(\<exists>snap. get_config sample_platform sample_config = Inr snap
       \<and> has_option sample_config ''circus'' ''stats_endpoint''
       \<and> \<not> has_option sample_config ''circus'' ''statsd''
       \<and> map_of snap ''statsd'' = Some (PBool True))
   \<and> (\<exists>snap. get_config sample_platform plain_config = Inr snap
       \<and> \<not> has_option plain_config ''circus'' ''stats_endpoint''
       \<and> \<not> has_option plain_config ''circus'' ''statsd''
       \<and> map_of snap ''stats_endpoint'' = Some (PStr ''tcp://127.0.0.1:5557'')
       \<and> map_of snap ''statsd'' = Some (PBool False))"
proof -
  have h: "has_option sample_config ''circus'' ''stats_endpoint''"
    "\<not> has_option sample_config ''circus'' ''statsd''"
    "\<not> has_option plain_config ''circus'' ''stats_endpoint''"
    "\<not> has_option plain_config ''circus'' ''statsd''"
    by (simp_all add: has_option_def sample_config_def plain_config_def)
  have d: "DEFAULT_ENDPOINT_STATS sample_platform = ''tcp://127.0.0.1:5557''"
    by (simp add: sample_platform_def)
  from stats_endpoint_enables_statsd [OF sample_run] h(1)
  have 1: "map_of (projr (get_config sample_platform sample_config)) ''statsd'' = Some (PBool True)"
    unfolding sample_run sum.sel by (rule conjunct1 [THEN mp])
  from stats_endpoint_enables_statsd [OF plain_run] h(3,4)
  have 2: "map_of (projr (get_config sample_platform plain_config)) ''stats_endpoint''
             = Some (PStr ''tcp://127.0.0.1:5557'')"
    "map_of (projr (get_config sample_platform plain_config)) ''statsd'' = Some (PBool False)"
    unfolding plain_run sum.sel d by blast+
  show ?thesis
    using h 1 2 sample_run plain_run
    by (intro conjI exI [of _ "projr (get_config sample_platform sample_config)"]
        exI [of _ "projr (get_config sample_platform plain_config)"]) simp_all
qed

text \<open>
  C5. When \<open>[circus]\<close> has no option \<open>check_delay\<close>, the snapshot returned by \<open>get_config\<close>
  has \<open>check_delay\<close> equal to 5. Every watcher of the returned list whose section has no
  option \<open>max_retry\<close> has \<open>max_retry\<close> equal to 5, and in the same way \<open>numprocesses\<close> is 1,
  \<open>respawn\<close> is \<open>True\<close> and \<open>autostart\<close> is \<open>True\<close> when the section omits the option.
  The sections of a file are distinct; the \<open>i\<close>-th dictionary of the list belongs to the
  \<open>i\<close>-th section of \<open>listed_sections\<close>.
\<close>

theorem omitted_options_take_their_defaults:
  assumes "get_config P cfg = Inr snap" and "distinct (sections cfg)"
    and "listed_sections P cfg = Inr secs"
  shows "(\<not> has_option cfg ''circus'' ''check_delay''
            \<longrightarrow> map_of snap ''check_delay'' = Some (PFloat (Finite 5)))
       \<and> list_all2 (\<lambda>s w. \<exists>its. map_of cfg s = Some its
             \<and> (''max_retry'' \<notin> fst ` set its \<longrightarrow> map_of w ''max_retry'' = Some (PInt 5))
             \<and> (''numprocesses'' \<notin> fst ` set its \<longrightarrow> map_of w ''numprocesses'' = Some (PInt 1))
             \<and> (''respawn'' \<notin> fst ` set its \<longrightarrow> map_of w ''respawn'' = Some (PBool True))
             \<and> (''autostart'' \<notin> fst ` set its \<longrightarrow> map_of w ''autostart'' = Some (PBool True)))
           secs (watcher_dicts (get_config P cfg))"
proof
  from assms(1) obtain local_env global_env cd where
    cd: "dget P cfg global_env ''circus'' ''check_delay'' (PFloat (Finite 5)) TFloat = Inr cd"
    and m: "map_of snap ''check_delay'' = Some cd"
    by (rule snapshot_main_options)
  show "\<not> has_option cfg ''circus'' ''check_delay''
      \<longrightarrow> map_of snap ''check_delay'' = Some (PFloat (Finite 5))"
  proof
    assume "\<not> has_option cfg ''circus'' ''check_delay''"
    with cd have "cd = PFloat (Finite 5)" by (simp add: dget_absent)
    with m show "map_of snap ''check_delay'' = Some (PFloat (Finite 5))" by simp
  qed
next
  from assms obtain local_env global_env where
    la: "list_all2 (\<lambda>s w. \<exists>its. watcher_of_section P cfg global_env local_env s its w)
       secs (watcher_dicts (get_config P cfg))"
    by (rule listed_watchers)
  have one: "\<exists>its. map_of cfg s = Some its
             \<and> (''max_retry'' \<notin> fst ` set its \<longrightarrow> map_of w ''max_retry'' = Some (PInt 5))
             \<and> (''numprocesses'' \<notin> fst ` set its \<longrightarrow> map_of w ''numprocesses'' = Some (PInt 1))
             \<and> (''respawn'' \<notin> fst ` set its \<longrightarrow> map_of w ''respawn'' = Some (PBool True))
             \<and> (''autostart'' \<notin> fst ` set its \<longrightarrow> map_of w ''autostart'' = Some (PBool True))"
    if "\<exists>its. watcher_of_section P cfg global_env local_env s its w" for s w
  proof -
    from that obtain its where w: "watcher_of_section P cfg global_env local_env s its w" ..
    then have i: "map_of cfg s = Some its" by (simp add: watcher_of_section_def)
    have 1: "map_of w ''max_retry'' = Some (PInt 5)" if "''max_retry'' \<notin> fst ` set its"
      using watcher_keeps_default [OF w that]
      by (simp add: startswith_Cons watcher_defaults_def)
    have 2: "map_of w ''numprocesses'' = Some (PInt 1)" if "''numprocesses'' \<notin> fst ` set its"
      using watcher_keeps_default [OF w that]
      by (simp add: startswith_Cons watcher_defaults_def)
    have 3: "map_of w ''respawn'' = Some (PBool True)" if "''respawn'' \<notin> fst ` set its"
      using watcher_keeps_default [OF w that]
      by (simp add: startswith_Cons watcher_defaults_def)
    have 4: "map_of w ''autostart'' = Some (PBool True)" if "''autostart'' \<notin> fst ` set its"
      using watcher_keeps_default [OF w that]
      by (simp add: startswith_Cons watcher_defaults_def)
    from i 1 2 3 4 show ?thesis by (intro exI [of _ its] conjI impI)
  qed
  from la show "list_all2 (\<lambda>s w. \<exists>its. map_of cfg s = Some its
             \<and> (''max_retry'' \<notin> fst ` set its \<longrightarrow> map_of w ''max_retry'' = Some (PInt 5))
             \<and> (''numprocesses'' \<notin> fst ` set its \<longrightarrow> map_of w ''numprocesses'' = Some (PInt 1))
             \<and> (''respawn'' \<notin> fst ` set its \<longrightarrow> map_of w ''respawn'' = Some (PBool True))
             \<and> (''autostart'' \<notin> fst ` set its \<longrightarrow> map_of w ''autostart'' = Some (PBool True)))
           secs (watcher_dicts (get_config P cfg))"
    by (rule list_all2_mono) (rule one)
qed

theorem omitted_options_take_their_defaults_witness:
  "(\<exists>snap. get_config sample_platform plain_config = Inr snap
       \<and> \<not> has_option plain_config ''circus'' ''check_delay''
       \<and> map_of snap ''check_delay'' = Some (PFloat (Finite 5)))
   \<and> distinct (sections plain_config)
   \<and> listed_sections sample_platform plain_config = Inr [''watcher:w'']
   \<and> map_of plain_config ''watcher:w'' = Some [(''cmd'', ''sleep'')]
   \<and> map (\<lambda>w. (map_of w ''max_retry'', map_of w ''numprocesses'', map_of w ''respawn'',
                  map_of w ''autostart''))
         (watcher_dicts (get_config sample_platform plain_config))
       = [(Some (PInt 5), Some (PInt 1), Some (PBool True), Some (PBool True))]"
proof -
  note t = omitted_options_take_their_defaults
    [OF plain_run plain_sections_distinct plain_listed]
  have a: "\<not> has_option plain_config ''circus'' ''check_delay''"
    by (simp add: has_option_def plain_config_def)
  from t [THEN conjunct1] a
  have "\<exists>snap. get_config sample_platform plain_config = Inr snap
       \<and> \<not> has_option plain_config ''circus'' ''check_delay''
       \<and> map_of snap ''check_delay'' = Some (PFloat (Finite 5))"
    by (simp add: plain_run)
  moreover have "map_of plain_config ''watcher:w'' = Some [(''cmd'', ''sleep'')]"
    by (simp add: plain_config_def)
  moreover have "map (\<lambda>w. (map_of w ''max_retry'', map_of w ''numprocesses'', map_of w ''respawn'',
                  map_of w ''autostart''))
         (watcher_dicts (get_config sample_platform plain_config))
       = [(Some (PInt 5), Some (PInt 1), Some (PBool True), Some (PBool True))]"
    by (simp add: plain_run watcher_dicts_def)
  ultimately show ?thesis
    using plain_sections_distinct plain_listed by (intro conjI)
qed

text \<open>
  C2 (as amended). The list of watchers returned by \<open>get_config\<close> is in the order in which
  \<open>sort_by_field\<close> leaves the watchers collected by the first loop. The sort runs before
  any \<open>priority\<close> option is read: every dictionary it is given still has the default
  priority 0. The priority a section declares is stored in the watcher's dictionary
  afterwards and does not change the order of the list: the \<open>i\<close>-th dictionary returned
  is the one of the \<open>i\<close>-th section in that order, with the name of the section (unless
  the section has an option \<open>name\<close>) and the priority the section declares.
\<close>

theorem watchers_listed_in_sort_by_field_order:
  assumes g: "get_config P cfg = Inr snap" and d: "distinct (sections cfg)"
    and c: "collected_watchers P cfg = Inr (ss, ws0)"
  shows "list_all (\<lambda>w0. map_of w0 ''priority'' = Some (PInt 0)) ws0
     \<and> listed_sections P cfg = Inr (reorder ss (sort_by_field P ws0))
     \<and> list_all2
          (\<lambda>s w. \<exists>its. map_of cfg s = Some its
             \<and> (''name'' \<notin> fst ` set its
                  \<longrightarrow> (\<exists>name. item (str_split1 s ''watcher:'') 1 = Inr name
                         \<and> map_of w ''name'' = Some (PStr name)))
             \<and> (\<forall>raw. distinct (map fst its) \<and> (''priority'', raw) \<in> set its
                  \<longrightarrow> (\<exists>env i. py_int P (replace_gnu_args P raw env) = Some i
                         \<and> map_of w ''priority'' = Some (PInt i))))
          (reorder ss (sort_by_field P ws0)) (watcher_dicts (get_config P cfg))"
proof -
  from g d obtain local_env global_env and st :: collected and ws1 ws where
    ok: "collected_ok P cfg global_env local_env st" and
    m0: "mapE (the_watcher (watchers_map st)) (watchers st) = Inr ws1" and
    cw: "collected_watchers P cfg = Inr (watchers st, ws1)" and
    ls: "listed_sections P cfg = Inr (reorder (watchers st) (sort_by_field P ws1))" and
    mw: "map_of snap ''watchers'' = Some (PList (map PDict ws))" and
    la: "list_all2 (\<lambda>s w. \<exists>its. watcher_of_section P cfg global_env local_env s its w)
       (reorder (watchers st) (sort_by_field P ws1)) ws"
    by (rule snapshot_watchers) (rule that; assumption)
  from c cw have e: "ss = watchers st" "ws0 = ws1" by simp_all
  from mw have wd: "watcher_dicts (get_config P cfg) = ws"
    unfolding g by (rule watcher_dicts_of_list)
  have one: "\<exists>its. map_of cfg s = Some its
             \<and> (''name'' \<notin> fst ` set its
                  \<longrightarrow> (\<exists>name. item (str_split1 s ''watcher:'') 1 = Inr name
                         \<and> map_of w ''name'' = Some (PStr name)))
             \<and> (\<forall>raw. distinct (map fst its) \<and> (''priority'', raw) \<in> set its
                  \<longrightarrow> (\<exists>env i. py_int P (replace_gnu_args P raw env) = Some i
                         \<and> map_of w ''priority'' = Some (PInt i)))"
    if "\<exists>its. watcher_of_section P cfg global_env local_env s its w" for s w
  proof -
    from that obtain its where w: "watcher_of_section P cfg global_env local_env s its w" ..
    then have i: "map_of cfg s = Some its" by (simp add: watcher_of_section_def)
    have "\<exists>env i. py_int P (replace_gnu_args P raw env) = Some i
                         \<and> map_of w ''priority'' = Some (PInt i)"
      if "distinct (map fst its) \<and> (''priority'', raw) \<in> set its" for raw
      using w that [THEN conjunct1] that [THEN conjunct2] by (rule watcher_priority_stored)
    moreover have "\<exists>name. item (str_split1 s ''watcher:'') 1 = Inr name
                         \<and> map_of w ''name'' = Some (PStr name)"
      if "''name'' \<notin> fst ` set its"
      using w that by (rule watcher_name_kept)
    ultimately show ?thesis using i by (intro exI [of _ its] conjI allI impI)
  qed
  from ok m0 have "list_all (\<lambda>w0. map_of w0 ''priority'' = Some (PInt 0)) ws0"
    unfolding e by (rule collected_priorities)
  moreover from ls have "listed_sections P cfg = Inr (reorder ss (sort_by_field P ws0))"
    unfolding e .
  moreover from la have "list_all2
          (\<lambda>s w. \<exists>its. map_of cfg s = Some its
             \<and> (''name'' \<notin> fst ` set its
                  \<longrightarrow> (\<exists>name. item (str_split1 s ''watcher:'') 1 = Inr name
                         \<and> map_of w ''name'' = Some (PStr name)))
             \<and> (\<forall>raw. distinct (map fst its) \<and> (''priority'', raw) \<in> set its
                  \<longrightarrow> (\<exists>env i. py_int P (replace_gnu_args P raw env) = Some i
                         \<and> map_of w ''priority'' = Some (PInt i))))
          (reorder ss (sort_by_field P ws0)) (watcher_dicts (get_config P cfg))"
    unfolding e wd by (rule list_all2_mono) (rule one)
  ultimately show ?thesis by (intro conjI)
qed

theorem watchers_listed_in_sort_by_field_order_witness:
  "(\<exists>snap. get_config sample_platform sample_config = Inr snap)
   \<and> distinct (sections sample_config)
   \<and> (\<exists>ss ws0. collected_watchers sample_platform sample_config = Inr (ss, ws0)
         \<and> ss = [''watcher:a'', ''watcher:b'']
         \<and> map (\<lambda>w0. map_of w0 ''priority'') ws0 = [Some (PInt 0), Some (PInt 0)]
         \<and> list_all (\<lambda>w0. map_of w0 ''priority'' = Some (PInt 0)) ws0
         \<and> listed_sections sample_platform sample_config
               = Inr (reorder ss (sort_by_field sample_platform ws0)))
   \<and> listed_sections sample_platform sample_config = Inr [''watcher:a'', ''watcher:b'']
   \<and> map (\<lambda>w. (map_of w ''name'', map_of w ''priority''))
         (watcher_dicts (get_config sample_platform sample_config))
       = [(Some (PStr ''a''), Some (PInt 1)), (Some (PStr ''b''), Some (PInt 2))]"
proof -
  note t = watchers_listed_in_sort_by_field_order
    [OF sample_run sample_sections_distinct sample_collected]
  have p: "map (\<lambda>w0. map_of w0 ''priority'')
         (map (\<lambda>(n, ce, e). dict_set (dict_set (dict_set (watcher_defaults sample_platform)
                   ''name'' (PStr n)) ''copy_env'' (PBool ce)) ''env'' (PDict e))
              [(''a'', False, []),
               (''b'', True, [(''PATH'', PStr ''/usr/bin''), (''HOME'', PStr ''/root'')])])
       = [Some (PInt 0), Some (PInt 0)]"
    by (simp add: map_of_dict_set watcher_defaults_def)
  have 1: "\<exists>snap. get_config sample_platform sample_config = Inr snap"
    using sample_run by (rule exI)
  have 3: "\<exists>ss ws0. collected_watchers sample_platform sample_config = Inr (ss, ws0)
         \<and> ss = [''watcher:a'', ''watcher:b'']
         \<and> map (\<lambda>w0. map_of w0 ''priority'') ws0 = [Some (PInt 0), Some (PInt 0)]
         \<and> list_all (\<lambda>w0. map_of w0 ''priority'' = Some (PInt 0)) ws0
         \<and> listed_sections sample_platform sample_config
               = Inr (reorder ss (sort_by_field sample_platform ws0))"
    using sample_collected p t [THEN conjunct1] t [THEN conjunct2, THEN conjunct1]
    by (intro exI conjI) (assumption | rule refl)+
  have 5: "map (\<lambda>w. (map_of w ''name'', map_of w ''priority''))
         (watcher_dicts (get_config sample_platform sample_config))
       = [(Some (PStr ''a''), Some (PInt 1)), (Some (PStr ''b''), Some (PInt 2))]"
    by (simp add: sample_run watcher_dicts_def)
  from 1 sample_sections_distinct 3 sample_listed 5 show ?thesis by (intro conjI)
qed

text \<open>
  The claim as stated fails: of two watchers declared with priorities 1 and 2, the one
  with priority 1 is listed first.
\<close>

theorem watchers_not_ordered_by_priority_counterexample:
  "map (\<lambda>w. (map_of w ''name'', map_of w ''priority''))
     (watcher_dicts (get_config sample_platform sample_config))
     = [(Some (PStr ''a''), Some (PInt 1)), (Some (PStr ''b''), Some (PInt 2))]
   \<and> \<not> sorted_wrt (\<lambda>v w. priority_of v \<ge> priority_of w)
         (watcher_dicts (get_config sample_platform sample_config))"
  by (simp add: sample_run watcher_dicts_def priority_of_def)

text \<open>
  C7 (as amended). In a file without \<open>env:\<close> sections, the environment recorded for a
  watcher whose section has no option \<open>env\<close> is decided by \<open>copy_env\<close>, not by \<open>copy_path\<close>:
  it is the environment of the parent process updated with the \<open>[env]\<close> section
  (\<open>global_env\<close>), \<open>PATH\<close> included, when \<open>copy_env\<close> is true for the watcher, and the
  variables of the \<open>[env]\<close> section alone (\<open>local_env\<close>) otherwise. Without an \<open>[env]\<close>
  section these are \<open>os.environ\<close> and the empty environment.
\<close>

theorem recorded_environment_follows_copy_env:
  assumes g: "get_config P cfg = Inr snap" and d: "distinct (sections cfg)"
    and l: "listed_sections P cfg = Inr secs"
    and re: "read_env P cfg = Inr (local_env, global_env)"
    and ne: "\<forall>s' \<in> set (sections cfg). \<not> startswith s' ''env:''"
  shows "(''env'' \<notin> set (sections cfg)
            \<longrightarrow> local_env = [] \<and> global_env = dict_from (os_environ P))
     \<and> list_all2
          (\<lambda>s w. \<exists>its copy_env. map_of cfg s = Some its
             \<and> dget P cfg global_env s ''copy_env'' (PBool False) TBool = Inr copy_env
             \<and> (''env'' \<notin> fst ` set its
                  \<longrightarrow> map_of w ''env''
                        = Some (PDict (if truthy copy_env then global_env else local_env))
                    \<and> env_var w ''PATH''
                        = map_of (if truthy copy_env then global_env else local_env) ''PATH''))
          secs (watcher_dicts (get_config P cfg))"
proof
  show "''env'' \<notin> set (sections cfg)
      \<longrightarrow> local_env = [] \<and> global_env = dict_from (os_environ P)"
    using re by (auto dest: read_env_without_env_section)
next
  from g d l obtain local_env' global_env' where
    re': "read_env P cfg = Inr (local_env', global_env')" and
    la: "list_all2 (\<lambda>s w. \<exists>its. watcher_of_section P cfg global_env' local_env' s its w)
       secs (watcher_dicts (get_config P cfg))"
    by (rule listed_watchers)
  from re re' have e: "local_env' = local_env" "global_env' = global_env" by simp_all
  have one: "\<exists>its copy_env. map_of cfg s = Some its
             \<and> dget P cfg global_env s ''copy_env'' (PBool False) TBool = Inr copy_env
             \<and> (''env'' \<notin> fst ` set its
                  \<longrightarrow> map_of w ''env''
                        = Some (PDict (if truthy copy_env then global_env else local_env))
                    \<and> env_var w ''PATH''
                        = map_of (if truthy copy_env then global_env else local_env) ''PATH'')"
    if "\<exists>its. watcher_of_section P cfg global_env local_env s its w" for s w
  proof -
    from that obtain its where w: "watcher_of_section P cfg global_env local_env s its w" ..
    then have i: "map_of cfg s = Some its" by (simp add: watcher_of_section_def)
    from w obtain w1 where "collect_watcher P cfg global_env local_env s = Inr w1"
      unfolding watcher_of_section_def by (elim exE conjE)
    then obtain name copy_env where
      c: "dget P cfg global_env s ''copy_env'' (PBool False) TBool = Inr copy_env"
      by (rule collect_watcher_result)
    have "map_of w ''env''
            = Some (PDict (if truthy copy_env then global_env else local_env))
        \<and> env_var w ''PATH''
            = map_of (if truthy copy_env then global_env else local_env) ''PATH''"
      if k: "''env'' \<notin> fst ` set its"
    proof -
      from watcher_env_without_env_sections [OF w k ne] c
      have "map_of w ''env''
            = Some (PDict (if truthy copy_env then global_env else local_env))"
        by auto
      then show ?thesis by (simp add: env_var_def)
    qed
    with i c show ?thesis by (intro exI [of _ its] exI [of _ copy_env]) simp
  qed
  from la show "list_all2
          (\<lambda>s w. \<exists>its copy_env. map_of cfg s = Some its
             \<and> dget P cfg global_env s ''copy_env'' (PBool False) TBool = Inr copy_env
             \<and> (''env'' \<notin> fst ` set its
                  \<longrightarrow> map_of w ''env''
                        = Some (PDict (if truthy copy_env then global_env else local_env))
                    \<and> env_var w ''PATH''
                        = map_of (if truthy copy_env then global_env else local_env) ''PATH''))
          secs (watcher_dicts (get_config P cfg))"
    unfolding e by (rule list_all2_mono) (rule one)
qed

theorem recorded_environment_follows_copy_env_witness:
  "(\<exists>snap. get_config sample_platform sample_config = Inr snap)
   \<and> distinct (sections sample_config)
   \<and> listed_sections sample_platform sample_config = Inr [''watcher:a'', ''watcher:b'']
   \<and> read_env sample_platform sample_config
       = Inr ([], [(''PATH'', PStr ''/usr/bin''), (''HOME'', PStr ''/root'')])
   \<and> list_all (\<lambda>s'. \<not> startswith s' ''env:'') (sections sample_config)
   \<and> ''env'' \<notin> set (sections sample_config)
   \<and> dict_from (os_environ sample_platform)
       = [(''PATH'', PStr ''/usr/bin''), (''HOME'', PStr ''/root'')]
   \<and> map (\<lambda>w. (map_of w ''copy_env'', env_var w ''PATH''))
         (watcher_dicts (get_config sample_platform sample_config))
       = [(Some (PBool False), None), (Some (PBool True), Some (PStr ''/usr/bin''))]"
proof -
  note t = recorded_environment_follows_copy_env
    [OF sample_run sample_sections_distinct sample_listed sample_read_env
        sample_no_env_sections]
  have 1: "\<exists>snap. get_config sample_platform sample_config = Inr snap"
    using sample_run by (rule exI)
  have 5: "list_all (\<lambda>s'. \<not> startswith s' ''env:'') (sections sample_config)"
    using sample_no_env_sections by (simp add: list_all_iff)
  have 6: "''env'' \<notin> set (sections sample_config)"
    by (simp add: sections_def sample_config_def)
  from t [THEN conjunct1] 6
  have 7: "dict_from (os_environ sample_platform)
       = [(''PATH'', PStr ''/usr/bin''), (''HOME'', PStr ''/root'')]"
    by simp
  have 8: "map (\<lambda>w. (map_of w ''copy_env'', env_var w ''PATH''))
         (watcher_dicts (get_config sample_platform sample_config))
       = [(Some (PBool False), None), (Some (PBool True), Some (PStr ''/usr/bin''))]"
    by (simp add: sample_run watcher_dicts_def env_var_def)
  from 1 sample_sections_distinct sample_listed sample_read_env 5 6 7 8
  show ?thesis by (intro conjI)
qed

text \<open>
  The claim as stated fails: a watcher with \<open>copy_path\<close> true and \<open>copy_env\<close> unset has no
  \<open>PATH\<close> in its recorded environment, and a watcher with \<open>copy_env\<close> true and
  \<open>copy_path\<close> unset has the parent's.
\<close>

theorem copy_path_does_not_decide_PATH_counterexample:
  "map_of (os_environ sample_platform) ''PATH'' = Some ''/usr/bin''
   \<and> map (\<lambda>w. (map_of w ''name'', map_of w ''copy_path'', env_var w ''PATH''))
         (watcher_dicts (get_config sample_platform sample_config))
       = [(Some (PStr ''a''), Some (PBool True), None),
          (Some (PStr ''b''), Some (PBool False), Some (PStr ''/usr/bin''))]"
proof
  show "map_of (os_environ sample_platform) ''PATH'' = Some ''/usr/bin''"
    by (simp add: sample_platform_def)
  show "map (\<lambda>w. (map_of w ''name'', map_of w ''copy_path'', env_var w ''PATH''))
         (watcher_dicts (get_config sample_platform sample_config))
       = [(Some (PStr ''a''), Some (PBool True), None),
          (Some (PStr ''b''), Some (PBool False), Some (PStr ''/usr/bin''))]"
    by (simp add: sample_run watcher_dicts_def env_var_def)
qed

text \<open>
  C4 (as amended). For a watcher section with an option \<open>rlimit_NAME\<close> of value \<open>-1\<close>
  and no option named \<open>rlimits\<close>, the \<open>rlimits\<close> mapping of the watcher in the snapshot
  maps \<open>NAME\<close> to the integer \<open>-1\<close>, which \<open>int\<close> makes of the value. That is
  \<open>RLIM_INFINITY\<close> only on a platform whose \<open>RLIM_INFINITY\<close> is \<open>-1\<close>. The value \<open>-1\<close>
  holds no \<open>$(...)\<close> reference, so \<open>replace_gnu_args\<close> leaves it as it is, and \<open>int\<close>
  reads it as \<open>-1\<close>; option names are distinct within a section.
\<close>

theorem rlimit_minus_one_is_stored_as_minus_one:
  assumes g: "get_config P cfg = Inr snap" and d: "distinct (sections cfg)"
    and l: "listed_sections P cfg = Inr secs"
    and rga: "\<forall>env. replace_gnu_args P ''-1'' env = ''-1''"
    and pi: "py_int P ''-1'' = Some (- 1)"
  shows "list_all2
          (\<lambda>s w. \<exists>its. map_of cfg s = Some its
             \<and> (\<forall>name. distinct (map fst its) \<and> (''rlimit_'' @ name, ''-1'') \<in> set its
                    \<and> ''rlimits'' \<notin> fst ` set its
                  \<longrightarrow> rlimit_of w name = Some (PInt (- 1))
                    \<and> (\<forall>r. RLIM_INFINITY P = Some r
                          \<longrightarrow> (rlimit_of w name = Some (PInt r) \<longleftrightarrow> r = - 1))))
          secs (watcher_dicts (get_config P cfg))"
proof -
  from g d l obtain local_env global_env where
    la: "list_all2 (\<lambda>s w. \<exists>its. watcher_of_section P cfg global_env local_env s its w)
       secs (watcher_dicts (get_config P cfg))"
    by (rule listed_watchers)
  from pi have v: "rlimit_value P (Some ''-1'') = Inr (PInt (- 1))"
    by (rule rlimit_value_of_numeral) simp
  have one: "\<exists>its. map_of cfg s = Some its
             \<and> (\<forall>name. distinct (map fst its) \<and> (''rlimit_'' @ name, ''-1'') \<in> set its
                    \<and> ''rlimits'' \<notin> fst ` set its
                  \<longrightarrow> rlimit_of w name = Some (PInt (- 1))
                    \<and> (\<forall>r. RLIM_INFINITY P = Some r
                          \<longrightarrow> (rlimit_of w name = Some (PInt r) \<longleftrightarrow> r = - 1)))"
    if "\<exists>its. watcher_of_section P cfg global_env local_env s its w" for s w
  proof -
    from that obtain its where w: "watcher_of_section P cfg global_env local_env s its w" ..
    then have i: "map_of cfg s = Some its" by (simp add: watcher_of_section_def)
    have key: "rlimit_of w name = Some (PInt (- 1))
        \<and> (\<forall>r. RLIM_INFINITY P = Some r
              \<longrightarrow> (rlimit_of w name = Some (PInt r) \<longleftrightarrow> r = - 1))"
      if h: "distinct (map fst its) \<and> (''rlimit_'' @ name, ''-1'') \<in> set its
                    \<and> ''rlimits'' \<notin> fst ` set its" for name
    proof -
      from h have h': "distinct (map fst its)" "(''rlimit_'' @ name, ''-1'') \<in> set its"
        "''rlimits'' \<notin> fst ` set its" by simp_all
      from watcher_rlimit_stored [OF w h'] obtain env v' where
        "rlimit_value P (Some (replace_gnu_args P ''-1'' env)) = Inr v'"
        "rlimit_of w name = Some v'" by (elim exE conjE)
      with rga v have "rlimit_of w name = Some (PInt (- 1))" by simp
      then show ?thesis by auto
    qed
    show ?thesis
    proof (rule exI [of _ its], rule conjI [OF i], rule allI, rule impI)
      fix name
      assume "distinct (map fst its) \<and> (''rlimit_'' @ name, ''-1'') \<in> set its
                    \<and> ''rlimits'' \<notin> fst ` set its"
      then show "rlimit_of w name = Some (PInt (- 1))
        \<and> (\<forall>r. RLIM_INFINITY P = Some r
              \<longrightarrow> (rlimit_of w name = Some (PInt r) \<longleftrightarrow> r = - 1))"
        by (rule key)
    qed
  qed
  from la show ?thesis by (rule list_all2_mono) (rule one)
qed

theorem rlimit_minus_one_is_stored_as_minus_one_witness:
  "(\<exists>snap. get_config sample_platform_macos sample_config = Inr snap)
   \<and> distinct (sections sample_config)
   \<and> listed_sections sample_platform_macos sample_config = Inr [''watcher:a'', ''watcher:b'']
   \<and> replace_gnu_args sample_platform_macos ''-1'' [] = ''-1''
   \<and> py_int sample_platform_macos ''-1'' = Some (- 1)
   \<and> map_of sample_config ''watcher:b''
       = Some [(''cmd'', ''ls''), (''priority'', ''2''), (''rlimit_nofile'', ''-1''),
               (''copy_env'', ''1'')]
   \<and> map (\<lambda>w. rlimit_of w ''nofile'')
         (watcher_dicts (get_config sample_platform_macos sample_config))
       = [None, Some (PInt (- 1))]"
proof -
  have r: "get_config sample_platform_macos sample_config = Inr (projr (get_config sample_platform sample_config))"
    unfolding sample_run_macos sample_run by simp
  note t = rlimit_minus_one_is_stored_as_minus_one
    [OF r sample_sections_distinct sample_listed_macos sample_macos_conversions]
  have 1: "\<exists>snap. get_config sample_platform_macos sample_config = Inr snap"
    using r by (rule exI)
  have 4: "replace_gnu_args sample_platform_macos ''-1'' [] = ''-1''"
    using sample_macos_conversions(1) by simp
  have 6: "map_of sample_config ''watcher:b''
       = Some [(''cmd'', ''ls''), (''priority'', ''2''), (''rlimit_nofile'', ''-1''),
               (''copy_env'', ''1'')]"
    by (simp add: sample_config_def)
  have 7: "map (\<lambda>w. rlimit_of w ''nofile'')
         (watcher_dicts (get_config sample_platform_macos sample_config))
       = [None, Some (PInt (- 1))]"
    using t by (simp add: sample_run_macos sample_run watcher_dicts_def rlimit_of_def)
  from 1 sample_sections_distinct sample_listed_macos 4 sample_macos_conversions(2) 6 7
  show ?thesis by (intro conjI)
qed

text \<open>
  The claim as stated fails where \<open>RLIM_INFINITY\<close> is not \<open>-1\<close>: the value \<open>-1\<close> of
  \<open>rlimit_nofile\<close> is stored as \<open>-1\<close>, not as \<open>RLIM_INFINITY\<close>.
\<close>

theorem rlimit_minus_one_is_not_infinity_counterexample:
  "RLIM_INFINITY sample_platform_macos = Some 9223372036854775807
   \<and> map_of sample_config ''watcher:b''
       = Some [(''cmd'', ''ls''), (''priority'', ''2''), (''rlimit_nofile'', ''-1''),
               (''copy_env'', ''1'')]
   \<and> map (\<lambda>w. (map_of w ''name'', rlimit_of w ''nofile''))
         (watcher_dicts (get_config sample_platform_macos sample_config))
       = [(Some (PStr ''a''), None), (Some (PStr ''b''), Some (PInt (- 1)))]"
proof (intro conjI)
  show "RLIM_INFINITY sample_platform_macos = Some 9223372036854775807"
    by (simp add: sample_platform_macos_def)
  show "map_of sample_config ''watcher:b''
       = Some [(''cmd'', ''ls''), (''priority'', ''2''), (''rlimit_nofile'', ''-1''),
               (''copy_env'', ''1'')]"
    by (simp add: sample_config_def)
  show "map (\<lambda>w. (map_of w ''name'', rlimit_of w ''nofile''))
         (watcher_dicts (get_config sample_platform_macos sample_config))
       = [(Some (PStr ''a''), None), (Some (PStr ''b''), Some (PInt (- 1)))]"
    by (simp add: sample_run_macos sample_run watcher_dicts_def rlimit_of_def)
qed

end
